theory Spec2Isabelle
  imports Main "HOL-Library.AList"
begin

section \<open>JavaScript values\<close>

text \<open>
  The server payload, the \<open>errors\<close> object of a control (Angular's \<open>ValidationErrors\<close>,
  declared as \<open>{[key: string]: any}\<close>) and the messages are JavaScript values. Objects are
  association lists in the order \<open>Object.keys\<close> enumerates them. A number is kept
  as the string that JavaScript prints for it (\<open>Number.prototype.toString\<close>): \<open>5\<close> is
  \<open>JNum ''5''\<close>, \<open>0.5\<close> is \<open>JNum ''0.5''\<close>, \<open>10^21\<close> is \<open>JNum ''1e+21''\<close>, and \<open>NaN\<close> is
  \<open>JNum ''NaN''\<close>. The source never computes with a number: it prints numbers into messages
  and tests values for truthiness, and both are read off this string (zero, of either
  sign, prints as \<open>0\<close>).
\<close>

datatype jsval =
    JUndefined
  | JNull
  | JBool bool
  | JNum string
  | JStr string
  | JArr "jsval list"
  | JObj "(string \<times> jsval) list"

datatype js_error = TypeError

text \<open>
  A call either returns or throws. Both carry the state the call has reached: what was
  written before an exception stays written.
\<close>

datatype 'a outcome = Returned 'a | Threw js_error 'a

fun state_of :: "'a outcome \<Rightarrow> 'a" where
  "state_of (Returned a) = a"
| "state_of (Threw e a) = a"

fun map_outcome :: "('a \<Rightarrow> 'b) \<Rightarrow> 'a outcome \<Rightarrow> 'b outcome" where
  "map_outcome f (Returned a) = Returned (f a)"
| "map_outcome f (Threw e a) = Threw e (f a)"

text \<open>\<open>keys.forEach(callback)\<close>: the callback runs on each key in turn; an exception ends the loop.\<close>

fun forEach :: "'k list \<Rightarrow> ('k \<Rightarrow> 's \<Rightarrow> 's outcome) \<Rightarrow> 's \<Rightarrow> 's outcome" where
  "forEach [] f s = Returned s"
| "forEach (k # ks) f s =
     (case f k s of
        Returned s' \<Rightarrow> forEach ks f s'
      | Threw e s' \<Rightarrow> Threw e s')"

definition digit_char :: "nat \<Rightarrow> char" where
  "digit_char d = ''0123456789'' ! d"

fun nat_toString :: "nat \<Rightarrow> string" where
  "nat_toString n =
     (if n < 10 then [digit_char n] else nat_toString (n div 10) @ [digit_char (n mod 10)])"

declare nat_toString.simps [simp del]

text \<open>
  The conversion a template literal \<open>`${v}`\<close> applies to \<open>v\<close>. An array is printed as its
  elements joined by commas, \<open>null\<close> and \<open>undefined\<close> among them as the empty string. An
  object is printed by its method \<open>toString\<close>: the inherited one gives \<open>[object Object]\<close>.
  An object with a property \<open>toString\<close> of its own, whose value here is never a function,
  cannot be converted: the template literal throws a \<open>TypeError\<close>.
\<close>

fun js_toString :: "jsval \<Rightarrow> js_error + string"
  and js_join :: "jsval list \<Rightarrow> js_error + string" where
  "js_toString JUndefined = Inr ''undefined''"
| "js_toString JNull = Inr ''null''"
| "js_toString (JBool b) = Inr (if b then ''true'' else ''false'')"
| "js_toString (JNum n) = Inr n"
| "js_toString (JStr s) = Inr s"
| "js_toString (JArr xs) = js_join xs"
| "js_toString (JObj kvs) =
     (if map_of kvs ''toString'' = None then Inr ''[object Object]'' else Inl TypeError)"
| "js_join [] = Inr []"
| "js_join (x # xs) =
     (case (if x = JUndefined \<or> x = JNull then Inr [] else js_toString x) of
        Inl e \<Rightarrow> Inl e
      | Inr s \<Rightarrow>
          if xs = [] then Inr s
          else (case js_join xs of Inl e \<Rightarrow> Inl e | Inr t \<Rightarrow> Inr (s @ '','' @ t)))"

text \<open>
  The template literal \<open>`s0${a}s1${b}`\<close> of two values, converted in turn.
\<close>

definition template2 :: "string \<Rightarrow> jsval \<Rightarrow> string \<Rightarrow> jsval \<Rightarrow> js_error + string" where
  "template2 s0 a s1 b =
     (case js_toString a of
        Inl e \<Rightarrow> Inl e
      | Inr sa \<Rightarrow> (case js_toString b of Inl e \<Rightarrow> Inl e | Inr sb \<Rightarrow> Inr (s0 @ sa @ s1 @ sb)))"

text \<open>Truthiness, as \<open>if (v)\<close> tests it.\<close>

fun truthy :: "jsval \<Rightarrow> bool" where
  "truthy JUndefined = False"
| "truthy JNull = False"
| "truthy (JBool b) = b"
| "truthy (JNum n) = (n \<noteq> ''0'' \<and> n \<noteq> ''NaN'')"
| "truthy (JStr s) = (s \<noteq> [])"
| "truthy (JArr xs) = True"
| "truthy (JObj kvs) = True"

fun isArray :: "jsval \<Rightarrow> bool" where
  "isArray (JArr xs) = True"
| "isArray v = False"

text \<open>
  The index a property name denotes in a sequence of \<open>n\<close> elements: the name must be the
  canonical decimal numeral of an index below \<open>n\<close> (\<open>''01''\<close> is no index).
\<close>

definition index_of :: "string \<Rightarrow> nat \<Rightarrow> nat option" where
  "index_of name n = find (\<lambda>i. nat_toString i = name) [0..<n]"

text \<open>
  \<open>Object.keys(v)\<close>: the keys of an object, the indices of an array or of a string, nothing
  for a number or a boolean, and a \<open>TypeError\<close> for \<open>null\<close> and \<open>undefined\<close>.
\<close>

fun Object_keys :: "jsval \<Rightarrow> js_error + string list" where
  "Object_keys JUndefined = Inl TypeError"
| "Object_keys JNull = Inl TypeError"
| "Object_keys (JBool b) = Inr []"
| "Object_keys (JNum n) = Inr []"
| "Object_keys (JStr s) = Inr (map nat_toString [0..<length s])"
| "Object_keys (JArr xs) = Inr (map nat_toString [0..<length xs])"
| "Object_keys (JObj kvs) = Inr (map fst kvs)"

text \<open>
  The property read \<open>v[name]\<close> (also written \<open>v.name\<close>). The source reads from a payload only
  names that \<open>Object.keys\<close> has listed, and from an error object only the names of the
  failure kinds and of their parameters, none of which is a built-in property of a string,
  an array, a number or a boolean: there the read gives \<open>undefined\<close>. The reads of the source
  that can meet \<open>null\<close> are guarded where they are made.
\<close>

fun get_prop :: "jsval \<Rightarrow> string \<Rightarrow> jsval" where
  "get_prop (JObj kvs) name = (case map_of kvs name of None \<Rightarrow> JUndefined | Some v \<Rightarrow> v)"
| "get_prop (JArr xs) name = (case index_of name (length xs) of None \<Rightarrow> JUndefined | Some i \<Rightarrow> xs ! i)"
| "get_prop (JStr s) name = (case index_of name (length s) of None \<Rightarrow> JUndefined | Some i \<Rightarrow> JStr [s ! i])"
| "get_prop v name = JUndefined"

text \<open>\<open>path.split('.')\<close>.\<close>

fun split_dot :: "string \<Rightarrow> string list" where
  "split_dot [] = [[]]"
| "split_dot (c # cs) =
     (if c = CHR ''.'' then [] # split_dot cs
      else (case split_dot cs of [] \<Rightarrow> [[c]] | w # ws \<Rightarrow> (c # w) # ws))"

section \<open>The form model\<close>

text \<open>
  What the source reads and writes of an \<open>AbstractControl\<close>: its \<open>errors\<close> (an object of
  failure kinds, or \<open>null\<close>), its \<open>status\<close> (\<open>invalid\<close> is \<open>status === INVALID\<close>) and its
  interaction flags. A \<open>FormGroup\<close> holds named controls in declaration order, a
  \<open>FormArray\<close> a sequence of controls.
\<close>

datatype status = VALID | INVALID | PENDING | DISABLED

record props =
  errors :: jsval
  status :: status
  dirty :: bool
  touched :: bool

datatype control =
    FormControl props
  | FormGroup props "(string \<times> control) list"
  | FormArray props "control list"

fun props_of :: "control \<Rightarrow> props" where
  "props_of (FormControl p) = p"
| "props_of (FormGroup p kids) = p"
| "props_of (FormArray p rows) = p"

fun map_props :: "(props \<Rightarrow> props) \<Rightarrow> control \<Rightarrow> control" where
  "map_props f (FormControl p) = FormControl (f p)"
| "map_props f (FormGroup p kids) = FormGroup (f p) kids"
| "map_props f (FormArray p rows) = FormArray (f p) rows"

fun children :: "control \<Rightarrow> control list" where
  "children (FormControl p) = []"
| "children (FormGroup p kids) = map snd kids"
| "children (FormArray p rows) = rows"

definition invalid :: "control \<Rightarrow> bool" where
  "invalid c = (status (props_of c) = INVALID)"

definition enabled :: "control \<Rightarrow> bool" where
  "enabled c = (status (props_of c) \<noteq> DISABLED)"

text \<open>
  \<open>control.get(path)\<close> of Angular: the path is split at the dots and followed from the
  control. In a group a name is looked up among the group's own controls
  (\<open>controls.hasOwnProperty(name) ? controls[name] : null\<close>); a step from a leaf control
  gives \<open>null\<close>. In an array a name that is an index gives the row at that index.

  For a name that is no index of the array the lookup reads \<open>controls[name]\<close> on a
  JavaScript array: the number of rows for \<open>length\<close>, what the array inherits from its
  prototypes for a name such as \<open>push\<close>, and \<open>undefined\<close> otherwise. So \<open>get\<close> can end in a
  value that is neither a control nor \<open>null\<close>: a number or a function, which has no method
  \<open>setErrors\<close> and no method \<open>get\<close>. What becomes of that value is the library's: up to
  Angular 13 the step is \<open>at(name) || null\<close>, and a further step from a value that is no
  control gives \<open>null\<close>; from Angular 14 the step is \<open>at(name) ?? null\<close>, which keeps the
  number 0, and a further step from a truthy value that is no control calls \<open>_find\<close> on
  it, a \<open>TypeError\<close> inside \<open>get\<close>. Which names an array inherits is the JavaScript
  engine's.

  Both are the parameter \<open>lib\<close>: for an array of \<open>n\<close> rows, a name that is no index and
  the rest of the path, \<open>lib n name rest\<close> is what \<open>get\<close> ends in: \<open>null\<close>, a falsy value
  other than \<open>null\<close>, a truthy value that is no control, or an exception. Every property
  below is proved for every \<open>lib\<close>.
\<close>

datatype no_control = Nothing | FalsyValue | TruthyValue | LookupFails

datatype lookup = Found control | NoControl no_control

type_synonym array_lookup = "nat \<Rightarrow> string \<Rightarrow> string list \<Rightarrow> no_control"

fun get_path :: "array_lookup \<Rightarrow> control \<Rightarrow> string list \<Rightarrow> lookup" where
  "get_path lib c [] = Found c"
| "get_path lib (FormControl p) (n # ns) = NoControl Nothing"
| "get_path lib (FormGroup p kids) (n # ns) =
     (case map_of kids n of None \<Rightarrow> NoControl Nothing | Some k \<Rightarrow> get_path lib k ns)"
| "get_path lib (FormArray p rows) (n # ns) =
     (case index_of n (length rows) of
        Some i \<Rightarrow> get_path lib (rows ! i) ns
      | None \<Rightarrow> NoControl (lib (length rows) n ns))"

definition form_get :: "array_lookup \<Rightarrow> control \<Rightarrow> string \<Rightarrow> lookup" where
  "form_get lib c path = get_path lib c (split_dot path)"

text \<open>
  The control at a path, where the path leads to one: through groups by name and through
  arrays by index. It is what \<open>get\<close> finds whenever \<open>get\<close> finds a control.
\<close>

fun control_at :: "control \<Rightarrow> string list \<Rightarrow> control option" where
  "control_at c [] = Some c"
| "control_at (FormControl p) (n # ns) = None"
| "control_at (FormGroup p kids) (n # ns) =
     (case map_of kids n of None \<Rightarrow> None | Some k \<Rightarrow> control_at k ns)"
| "control_at (FormArray p rows) (n # ns) =
     (case index_of n (length rows) of None \<Rightarrow> None | Some i \<Rightarrow> control_at (rows ! i) ns)"


text \<open>
  \<open>control.setErrors(e)\<close> of Angular stores \<open>e\<close> as the control's errors, recomputes the
  control's status and then the status of each ancestor, up to the root
  (\<open>_updateControlsErrors\<close>, \<open>_calculateStatus\<close>).
\<close>

definition allControlsDisabled :: "control \<Rightarrow> bool" where
  "allControlsDisabled c =
     (case c of
        FormControl p \<Rightarrow> status p = DISABLED
      | _ \<Rightarrow> list_all (\<lambda>k. \<not> enabled k) (children c)
               \<and> (children c \<noteq> [] \<or> status (props_of c) = DISABLED))"

definition anyControlsHaveStatus :: "status \<Rightarrow> control \<Rightarrow> bool" where
  "anyControlsHaveStatus s c = list_ex (\<lambda>k. enabled k \<and> status (props_of k) = s) (children c)"

definition calculateStatus :: "control \<Rightarrow> status" where
  "calculateStatus c =
     (if allControlsDisabled c then DISABLED
      else if truthy (errors (props_of c)) then INVALID
      else if anyControlsHaveStatus PENDING c then PENDING
      else if anyControlsHaveStatus INVALID c then INVALID
      else VALID)"

definition updateControlsErrors :: "control \<Rightarrow> control" where
  "updateControlsErrors c = map_props (\<lambda>p. p\<lparr>status := calculateStatus c\<rparr>) c"

text \<open>
  The control that \<open>get\<close> returns is an object inside the form; \<open>setErrors\<close> on it changes
  the form there. \<open>setErrorsAt path e form\<close> is the form after \<open>setErrors(e)\<close> on the control
  at \<open>path\<close> (the form itself where the path leads nowhere).
\<close>

fun setErrorsAt :: "string list \<Rightarrow> jsval \<Rightarrow> control \<Rightarrow> control" where
  "setErrorsAt [] e c = updateControlsErrors (map_props (\<lambda>p. p\<lparr>errors := e\<rparr>) c)"
| "setErrorsAt (n # ns) e (FormControl p) = FormControl p"
| "setErrorsAt (n # ns) e (FormGroup p kids) =
     (case map_of kids n of
        None \<Rightarrow> FormGroup p kids
      | Some k \<Rightarrow>
          (case control_at k ns of
             None \<Rightarrow> FormGroup p kids
           | Some t \<Rightarrow> updateControlsErrors (FormGroup p (AList.update n (setErrorsAt ns e k) kids))))"
| "setErrorsAt (n # ns) e (FormArray p rows) =
     (case index_of n (length rows) of
        None \<Rightarrow> FormArray p rows
      | Some i \<Rightarrow>
          (case control_at (rows ! i) ns of
             None \<Rightarrow> FormArray p rows
           | Some t \<Rightarrow> updateControlsErrors (FormArray p (rows[i := setErrorsAt ns e (rows ! i)]))))"

definition errors_at :: "control \<Rightarrow> string list \<Rightarrow> jsval option" where
  "errors_at form path = map_option (\<lambda>c. errors (props_of c)) (control_at form path)"

section \<open>The server-error mapper\<close>

text \<open>
  The mapper works on the form and signals the malformed payload by an alert and a dump
  on the console; both are kept as the list of signals it has given.
\<close>

datatype signal = Alert string | ConsoleLog jsval

record session =
  form :: control
  signals :: "signal list"

definition serverErrorOf :: "jsval \<Rightarrow> jsval" where
  "serverErrorOf message = JObj [(''serverError'', message)]"

text \<open>
  The \<open>else\<close> branch of the callback in \<open>setErrorsToNestedFields\<close>, for the inner key
  \<open>field\<close>. \<open>nestedForm.get(field)\<close> is a \<open>TypeError\<close> when
  \<open>this.form.get(nestedFieldName)\<close> is \<open>null\<close> or any other value that is no control: the
  source does not test \<open>nestedForm\<close>. The test \<open>if (nestedField)\<close> is a test for
  truthiness: a truthy value that is no control passes it, and the call of \<open>setErrors\<close>
  on it is a \<open>TypeError\<close>.
\<close>

definition setErrorsToNestedFields_else ::
    "array_lookup \<Rightarrow> jsval \<Rightarrow> string \<Rightarrow> string \<Rightarrow> control \<Rightarrow> control outcome" where
  "setErrorsToNestedFields_else lib nestedFormErrors nestedFieldName field f =
     (case form_get lib f nestedFieldName of
        NoControl x \<Rightarrow> Threw TypeError f
      | Found nestedForm \<Rightarrow>
          (case form_get lib nestedForm field of
             Found nestedField \<Rightarrow>
               Returned (setErrorsAt (split_dot nestedFieldName @ split_dot field)
                           (serverErrorOf (get_prop nestedFormErrors field)) f)
           | NoControl Nothing \<Rightarrow> Returned f
           | NoControl FalsyValue \<Rightarrow> Returned f
           | NoControl TruthyValue \<Rightarrow> Threw TypeError f
           | NoControl LookupFails \<Rightarrow> Threw TypeError f))"

text \<open>
  The callback of the loop in \<open>setErrorsToNestedFields\<close>, for the inner key \<open>field\<close>. The
  test \<open>if (formControl)\<close> is a test for truthiness as well.
\<close>

definition setErrorsToNestedFields_step ::
    "array_lookup \<Rightarrow> jsval \<Rightarrow> string \<Rightarrow> string \<Rightarrow> control \<Rightarrow> control outcome" where
  "setErrorsToNestedFields_step lib nestedFormErrors nestedFieldName field f =
     (case form_get lib f field of
        Found formControl \<Rightarrow>
          Returned (setErrorsAt (split_dot field) (serverErrorOf (get_prop nestedFormErrors field)) f)
      | NoControl Nothing \<Rightarrow>
          setErrorsToNestedFields_else lib nestedFormErrors nestedFieldName field f
      | NoControl FalsyValue \<Rightarrow>
          setErrorsToNestedFields_else lib nestedFormErrors nestedFieldName field f
      | NoControl TruthyValue \<Rightarrow> Threw TypeError f
      | NoControl LookupFails \<Rightarrow> Threw TypeError f)"

definition setErrorsToNestedFields ::
    "array_lookup \<Rightarrow> jsval \<Rightarrow> string \<Rightarrow> control \<Rightarrow> control outcome" where
  "setErrorsToNestedFields lib serverError nestedFieldName f =
     (let nestedFormErrors = get_prop serverError nestedFieldName in
      case Object_keys nestedFormErrors of
        Inl e \<Rightarrow> Threw e f
      | Inr ks \<Rightarrow> forEach ks (setErrorsToNestedFields_step lib nestedFormErrors nestedFieldName) f)"

text \<open>
  The callback of the loop in \<open>setErrorToFormFields\<close>, for the top-level key \<open>field\<close>.
  \<open>this.form.get(field)?.setErrors(...)\<close> passes over \<open>null\<close> only: on any other value
  that is no control the call is a \<open>TypeError\<close>.
\<close>

definition setErrorToFormFields_step ::
    "array_lookup \<Rightarrow> jsval \<Rightarrow> string \<Rightarrow> control \<Rightarrow> control outcome" where
  "setErrorToFormFields_step lib serverError field f =
     (if \<not> isArray (get_prop serverError field) then
        setErrorsToNestedFields lib serverError field f
      else
        (let errorMessages = get_prop serverError field in
         case form_get lib f field of
           Found c \<Rightarrow>
             Returned (setErrorsAt (split_dot field) (serverErrorOf (get_prop errorMessages ''0'')) f)
         | NoControl Nothing \<Rightarrow> Returned f
         | NoControl FalsyValue \<Rightarrow> Threw TypeError f
         | NoControl TruthyValue \<Rightarrow> Threw TypeError f
         | NoControl LookupFails \<Rightarrow> Threw TypeError f))"

definition setErrorToFormFields :: "array_lookup \<Rightarrow> jsval \<Rightarrow> control \<Rightarrow> control outcome" where
  "setErrorToFormFields lib serverError f =
     (case Object_keys serverError of
        Inl e \<Rightarrow> Threw e f
      | Inr ks \<Rightarrow> forEach ks (setErrorToFormFields_step lib serverError) f)"

definition organizeServerErrors :: "array_lookup \<Rightarrow> jsval \<Rightarrow> session \<Rightarrow> session outcome" where
  "organizeServerErrors lib serverError s =
     (if truthy serverError then
        (let isErrorAnObject = \<not> isArray serverError in
         if isErrorAnObject then
           map_outcome (\<lambda>f. s\<lparr>form := f\<rparr>) (setErrorToFormFields lib serverError (form s))
         else
           Returned (s\<lparr>signals := signals s @
                        [Alert ''No object this time, look console'', ConsoleLog serverError]\<rparr>))
      else Returned s)"

section \<open>The message formatter\<close>

text \<open>
  The messages are Albanian; their one letter outside ASCII, e with diaeresis, is kept
  as the two bytes of its UTF-8 encoding.
\<close>

definition e_diaeresis :: string where
  "e_diaeresis = [CHR 0xC3, CHR 0xAB]"

definition msg_maxlength :: "jsval \<Rightarrow> js_error + string" where
  "msg_maxlength maxlength =
     template2 (''Gjat'' @ e_diaeresis @ ''sia maksimale e lejuar '')
       (get_prop maxlength ''actualLength'') ''/''
       (get_prop maxlength ''requiredLength'')"

definition msg_email :: string where
  "msg_email = ''Email nuk '' @ e_diaeresis @ ''sht'' @ e_diaeresis @ '' i sakt'' @ e_diaeresis"

definition msg_required :: string where
  "msg_required = ''Fush'' @ e_diaeresis @ '' e detyrueshme''"

definition msg_min :: "jsval \<Rightarrow> js_error + string" where
  "msg_min min' =
     template2 (''Vlera minimale '' @ e_diaeresis @ ''sht'' @ e_diaeresis @ '' '')
       (get_prop min' ''min'') '', vlera aktuale ''
       (get_prop min' ''actual'')"

definition msg_max :: "jsval \<Rightarrow> js_error + string" where
  "msg_max max' =
     template2 (''Vlera maksimale '' @ e_diaeresis @ ''sht'' @ e_diaeresis @ '' '')
       (get_prop max' ''max'') '', vlera aktuale ''
       (get_prop max' ''actual'')"

definition msg_pattern :: string where
  "msg_pattern =
     ''Vlera e dh'' @ e_diaeresis @ ''n'' @ e_diaeresis @ '' nuk '' @ e_diaeresis @ ''sht''
       @ e_diaeresis @ '' e sakt'' @ e_diaeresis"

text \<open>
  \<open>setErrorMessage(errors)\<close> stores the message in \<open>this.message\<close>, which every caller reads
  right after the call: the model returns it. Reading a failure kind from \<open>errors\<close> when
  \<open>errors\<close> is \<open>null\<close> is a \<open>TypeError\<close>, and so is a template literal on a value that
  cannot be converted.
\<close>

definition message_of :: "js_error + string \<Rightarrow> js_error + jsval" where
  "message_of r = (case r of Inl e \<Rightarrow> Inl e | Inr s \<Rightarrow> Inr (JStr s))"

definition setErrorMessage :: "jsval \<Rightarrow> js_error + jsval" where
  "setErrorMessage errs =
     (if errs = JNull \<or> errs = JUndefined then Inl TypeError
      else if truthy (get_prop errs ''maxlength'') then
        message_of (msg_maxlength (get_prop errs ''maxlength''))
      else if truthy (get_prop errs ''email'') then Inr (JStr msg_email)
      else if truthy (get_prop errs ''required'') then Inr (JStr msg_required)
      else if truthy (get_prop errs ''min'') then message_of (msg_min (get_prop errs ''min''))
      else if truthy (get_prop errs ''max'') then message_of (msg_max (get_prop errs ''max''))
      else if truthy (get_prop errs ''pattern'') then Inr (JStr msg_pattern)
      else if truthy (get_prop errs ''serverError'') then Inr (get_prop errs ''serverError'')
      else Inr (JStr []))"

section \<open>The local-validation scanner\<close>

text \<open>
  The accumulator is the caller's object. The scanner defines properties on it with
  \<open>Object.defineProperty(_, name, {value, writable: true})\<close>, which adds the property or,
  the property being writable, replaces its value; such properties are not enumerable, so
  the accumulator is a map from names to values. A value is a message or, for a repeating
  group, the sequence of its per-row objects, each a map from field names to messages.
\<close>

datatype acc_value = Msg jsval | Rows "(string \<rightharpoonup> jsval) list"

type_synonym accumulator = "string \<rightharpoonup> acc_value"

definition hasError :: "control \<Rightarrow> bool" where
  "hasError c = (invalid c \<and> (dirty (props_of c) \<or> touched (props_of c)))"

definition setErrorToErrorObject :: "string \<Rightarrow> jsval \<Rightarrow> accumulator \<Rightarrow> accumulator" where
  "setErrorToErrorObject field message acc = acc(field \<mapsto> Msg message)"

text \<open>
  \<open>c.controls\<close>: the named controls of a group, the elements of an array under their
  indices, and \<open>undefined\<close> (here \<open>None\<close>) for a leaf control.
\<close>

fun controls_of :: "control \<Rightarrow> (string \<times> control) list option" where
  "controls_of (FormControl p) = None"
| "controls_of (FormGroup p kids) = Some kids"
| "controls_of (FormArray p rows) = Some (zip (map nat_toString [0..<length rows]) rows)"

definition findErrorsOnFormControls ::
    "(string \<times> control) list \<Rightarrow> string \<Rightarrow> accumulator \<Rightarrow> accumulator outcome" where
  "findErrorsOnFormControls controls control acc =
     (case map_of controls control of
        None \<Rightarrow> Threw TypeError acc
      | Some c \<Rightarrow>
          if hasError c then
            (case setErrorMessage (errors (props_of c)) of
               Inl e \<Rightarrow> Threw e acc
             | Inr message \<Rightarrow> Returned (setErrorToErrorObject control message acc))
          else Returned acc)"

text \<open>
  The callback of the inner loop of \<open>findErrorsOnFormArrays\<close>, in row \<open>i\<close>:
  \<open>formArrayErrors\<close> is the array held by the accumulator under \<open>formArrayName\<close>.
\<close>

definition findErrorsOnFormArrays_step ::
    "(string \<times> control) list \<Rightarrow> nat \<Rightarrow> string \<Rightarrow> string \<Rightarrow> accumulator \<Rightarrow> accumulator outcome" where
  "findErrorsOnFormArrays_step controls i formArrayName control acc =
     (case map_of controls control of
        None \<Rightarrow> Threw TypeError acc
      | Some c \<Rightarrow>
          if hasError c then
            (case setErrorMessage (errors (props_of c)) of
               Inl e \<Rightarrow> Threw e acc
             | Inr message \<Rightarrow>
                 (case acc formArrayName of
                    Some (Rows formArrayErrors) \<Rightarrow>
                      if i < length formArrayErrors then
                        Returned (acc(formArrayName \<mapsto>
                          Rows (formArrayErrors[i := (formArrayErrors ! i)(control \<mapsto> message)])))
                      else Threw TypeError acc
                  | _ \<Rightarrow> Threw TypeError acc))
          else Returned acc)"

text \<open>
  The loop of \<open>findErrorsOnFormArrays\<close> over the rows still to visit, \<open>i\<close> being the
  counter of the source. A row that is a leaf control has no \<open>controls\<close>:
  \<open>Object.keys(undefined)\<close> is a \<open>TypeError\<close>, after the push.
\<close>

fun findErrorsOnFormArrays_loop ::
    "control list \<Rightarrow> nat \<Rightarrow> string \<Rightarrow> accumulator \<Rightarrow> accumulator outcome" where
  "findErrorsOnFormArrays_loop [] i formArrayName acc = Returned acc"
| "findErrorsOnFormArrays_loop (formGroup # rest) i formArrayName acc =
     (case acc formArrayName of
        Some (Rows formArrayErrors) \<Rightarrow>
          (let acc1 = acc(formArrayName \<mapsto> Rows (formArrayErrors @ [Map.empty])) in
           case controls_of formGroup of
             None \<Rightarrow> Threw TypeError acc1
           | Some controls \<Rightarrow>
               (case forEach (map fst controls)
                       (findErrorsOnFormArrays_step controls i formArrayName) acc1 of
                  Returned acc2 \<Rightarrow> findErrorsOnFormArrays_loop rest (i + 1) formArrayName acc2
                | Threw e acc2 \<Rightarrow> Threw e acc2))
      | _ \<Rightarrow> Threw TypeError acc)"

definition findErrorsOnFormArrays :: "control \<Rightarrow> string \<Rightarrow> accumulator \<Rightarrow> accumulator outcome" where
  "findErrorsOnFormArrays formArray formArrayName acc =
     findErrorsOnFormArrays_loop (children formArray) 0 formArrayName acc"

text \<open>The callback of the loop in \<open>findErrors\<close>: a group that is no array is passed over.\<close>

definition findErrors_step ::
    "(string \<times> control) list \<Rightarrow> string \<Rightarrow> accumulator \<Rightarrow> accumulator outcome" where
  "findErrors_step controls control acc =
     (case map_of controls control of
        Some (FormArray p rows) \<Rightarrow>
          findErrorsOnFormArrays (FormArray p rows) control (acc(control \<mapsto> Rows []))
      | Some (FormControl p) \<Rightarrow> findErrorsOnFormControls controls control acc
      | _ \<Rightarrow> Returned acc)"

definition findErrors :: "(string \<times> control) list \<Rightarrow> accumulator \<Rightarrow> accumulator outcome" where
  "findErrors controls acc = forEach (map fst controls) (findErrors_step controls) acc"

text \<open>The subscriber of \<open>handleErrors\<close>, run on a value change that passed the debounce.\<close>

definition onValueChange :: "control \<Rightarrow> accumulator \<Rightarrow> accumulator outcome" where
  "onValueChange form' acc =
     (if invalid form' then
        (case controls_of form' of
           None \<Rightarrow> Threw TypeError acc
         | Some controls \<Rightarrow> findErrors controls acc)
      else Returned acc)"

section \<open>What a scan records\<close>

text \<open>
  The scanner's loops, read off as functions of the form alone. \<open>row_fold\<close> is the inner
  loop of \<open>findErrorsOnFormArrays\<close> on the object of one row, \<open>rows_fold\<close> its outer loop
  on the array of row objects, and \<open>child_write\<close> what the callback of \<open>findErrors\<close> puts
  under the name of one child (\<open>None\<close>: nothing), each with the exception that ends it, if
  any. The lemmas below show that the scanner computes exactly these.
\<close>

fun row_fold :: "(string \<times> control) list \<Rightarrow> string list \<Rightarrow> (string \<rightharpoonup> jsval) \<Rightarrow> (string \<rightharpoonup> jsval) outcome" where
  "row_fold controls [] m = Returned m"
| "row_fold controls (k # ks) m =
     (case map_of controls k of
        None \<Rightarrow> Threw TypeError m
      | Some c \<Rightarrow>
          if hasError c then
            (case setErrorMessage (errors (props_of c)) of
               Inl e \<Rightarrow> Threw e m
             | Inr message \<Rightarrow> row_fold controls ks (m(k \<mapsto> message)))
          else row_fold controls ks m)"

fun rows_fold :: "control list \<Rightarrow> (string \<rightharpoonup> jsval) list \<Rightarrow> (string \<rightharpoonup> jsval) list outcome" where
  "rows_fold [] rs = Returned rs"
| "rows_fold (r # rest) rs =
     (case controls_of r of
        None \<Rightarrow> Threw TypeError (rs @ [Map.empty])
      | Some controls \<Rightarrow>
          (case row_fold controls (map fst controls) Map.empty of
             Returned m \<Rightarrow> rows_fold rest (rs @ [m])
           | Threw e m \<Rightarrow> Threw e (rs @ [m])))"

fun child_write :: "control \<Rightarrow> acc_value option outcome" where
  "child_write (FormArray p rows) = map_outcome (\<lambda>rs. Some (Rows rs)) (rows_fold rows [])"
| "child_write (FormControl p) =
     (if hasError (FormControl p) then
        (case setErrorMessage (errors p) of
           Inl e \<Rightarrow> Threw e None
         | Inr message \<Rightarrow> Returned (Some (Msg message)))
      else Returned None)"
| "child_write (FormGroup p kids) = Returned None"

definition write_to :: "string \<Rightarrow> acc_value option \<Rightarrow> accumulator \<Rightarrow> accumulator" where
  "write_to k w acc = (case w of None \<Rightarrow> acc | Some v \<Rightarrow> acc(k \<mapsto> v))"

definition write_of :: "(string \<times> control) list \<Rightarrow> string \<Rightarrow> acc_value option" where
  "write_of controls k = (case map_of controls k of None \<Rightarrow> None | Some c \<Rightarrow> state_of (child_write c))"

definition throws :: "(string \<times> control) list \<Rightarrow> string \<Rightarrow> bool" where
  "throws controls k =
     (case map_of controls k of
        None \<Rightarrow> False
      | Some c \<Rightarrow> (case child_write c of Returned w \<Rightarrow> False | Threw e w \<Rightarrow> True))"

fun apply_writes :: "(string \<times> control) list \<Rightarrow> string list \<Rightarrow> accumulator \<Rightarrow> accumulator" where
  "apply_writes controls [] acc = acc"
| "apply_writes controls (k # ks) acc = apply_writes controls ks (write_to k (write_of controls k) acc)"

text \<open>
  The keys a scan gets to: all of them, or those up to the first whose callback throws.
\<close>

fun scanned_keys :: "(string \<times> control) list \<Rightarrow> string list \<Rightarrow> string list" where
  "scanned_keys controls [] = []"
| "scanned_keys controls (k # ks) =
     (if throws controls k then [k] else k # scanned_keys controls ks)"

section \<open>The specification in definitions\<close>

text \<open>
  The per-row mapping of the specification: a key for each control of the row that is
  invalid and dirty or touched, bound to its formatted message.
\<close>

definition row_messages :: "control \<Rightarrow> (string \<rightharpoonup> jsval)" where
  "row_messages row = (\<lambda>name.
     case controls_of row of
       None \<Rightarrow> None
     | Some controls \<Rightarrow>
         (case map_of controls name of
            None \<Rightarrow> None
          | Some c \<Rightarrow>
              if hasError c then
                (case setErrorMessage (errors (props_of c)) of
                   Inl e \<Rightarrow> None
                 | Inr message \<Rightarrow> Some message)
              else None))"

text \<open>
  A row is scanned as specified when the keys of its mapping are exactly the names of its
  controls that are invalid and dirty or touched.
\<close>

definition row_scanned :: "control \<Rightarrow> bool" where
  "row_scanned row =
     (case controls_of row of
        None \<Rightarrow> False
      | Some controls \<Rightarrow>
          dom (row_messages row) = {n. \<exists>c. map_of controls n = Some c \<and> hasError c})"

text \<open>
  Forms the scanner is meant for: for a control that is invalid and interacted with the
  formatter returns a message, and the rows of a repeating group are groups of such
  controls. The formatter returns a message for every failure-kind object whose length and
  range parameters can be printed, as numbers and strings can (lemma
  \<open>setErrorMessage_returns\<close> below); Angular gives a leaf control the status \<open>INVALID\<close> only
  together with such an object.
\<close>

definition field_ok :: "control \<Rightarrow> bool" where
  "field_ok c = (\<not> hasError c \<or> \<not> isl (setErrorMessage (errors (props_of c))))"

fun row_ok :: "control \<Rightarrow> bool" where
  "row_ok (FormGroup p kids) = list_all (\<lambda>kv. field_ok (snd kv)) kids"
| "row_ok c = False"

fun child_ok :: "control \<Rightarrow> bool" where
  "child_ok (FormControl p) = field_ok (FormControl p)"
| "child_ok (FormArray p rows) = list_all row_ok rows"
| "child_ok (FormGroup p kids) = True"

definition scannable :: "(string \<times> control) list \<Rightarrow> bool" where
  "scannable controls = list_all (\<lambda>kv. child_ok (snd kv)) controls"




text \<open>
  The values a template literal can print: all but the objects with a property
  \<open>toString\<close> of their own, and the arrays that hold one.
\<close>

definition printable :: "jsval \<Rightarrow> bool" where
  "printable v = (\<not> isl (js_toString v))"



section \<open>Example forms\<close>

definition ex_valid :: props where
  "ex_valid = \<lparr>errors = JNull, status = VALID, dirty = False, touched = False\<rparr>"

definition ex_login_form :: control where
  "ex_login_form = FormGroup ex_valid [(''email'', FormControl ex_valid)]"

definition ex_address_form :: control where
  "ex_address_form =
     FormGroup ex_valid
       [(''email'', FormControl ex_valid),
        (''address'', FormGroup ex_valid [(''city'', FormControl ex_valid)])]"

definition ex_required_touched :: props where
  "ex_required_touched =
     \<lparr>errors = JObj [(''required'', JBool True)], status = INVALID, dirty = False, touched = True\<rparr>"

definition ex_required_untouched :: props where
  "ex_required_untouched =
     \<lparr>errors = JObj [(''required'', JBool True)], status = INVALID, dirty = False, touched = False\<rparr>"

definition ex_min_dirty :: props where
  "ex_min_dirty =
     \<lparr>errors = JObj [(''min'', JObj [(''min'', JNum ''5''), (''actual'', JNum ''2'')])],
      status = INVALID, dirty = True, touched = False\<rparr>"

definition ex_invalid_touched :: props where
  "ex_invalid_touched = \<lparr>errors = JNull, status = INVALID, dirty = True, touched = True\<rparr>"

definition ex_rows :: "control list" where
  "ex_rows =
     [FormGroup ex_invalid_touched [(''qty'', FormControl ex_min_dirty), (''sku'', FormControl ex_valid)],
      FormGroup ex_valid [(''qty'', FormControl ex_valid), (''sku'', FormControl ex_valid)],
      FormGroup ex_invalid_touched [(''qty'', FormControl ex_valid), (''sku'', FormControl ex_required_touched)]]"

definition ex_order_controls :: "(string \<times> control) list" where
  "ex_order_controls =
     [(''email'', FormControl ex_required_touched),
      (''name'', FormControl ex_required_untouched),
      (''address'', FormGroup ex_invalid_touched [(''city'', FormControl ex_required_touched)]),
      (''items'', FormArray ex_invalid_touched ex_rows)]"

text \<open>
  Two libraries for the examples, both over the names an array inherits in ECMAScript 5:
  Angular up to version 13 (\<open>at(name) || null\<close>, and \<open>null\<close> after a value that is no
  control) and Angular from version 14 (\<open>at(name) ?? null\<close>, and an exception after a
  truthy value that is no control). No property in general depends on them.
\<close>

definition ex_inherited :: "string list" where
  "ex_inherited =
     [''constructor'', ''toString'', ''toLocaleString'', ''valueOf'', ''hasOwnProperty'',
      ''isPrototypeOf'', ''propertyIsEnumerable'', ''concat'', ''join'', ''pop'', ''push'',
      ''reverse'', ''shift'', ''slice'', ''sort'', ''splice'', ''unshift'', ''indexOf'',
      ''lastIndexOf'', ''every'', ''some'', ''forEach'', ''map'', ''filter'', ''reduce'',
      ''reduceRight'']"

definition ex_lib :: array_lookup where
  "ex_lib n name rest =
     (if rest \<noteq> [] then Nothing
      else if name = ''length'' then (if n = 0 then Nothing else TruthyValue)
      else if name \<in> set ex_inherited then TruthyValue
      else Nothing)"

definition ex_lib14 :: array_lookup where
  "ex_lib14 n name rest =
     (if name = ''length'' then
        (if n = 0 then FalsyValue else if rest = [] then TruthyValue else LookupFails)
      else if name \<in> set ex_inherited then
        (if rest = [] then TruthyValue else LookupFails)
      else Nothing)"

text \<open>
  A form with a repeating group \<open>items\<close> of two rows at the root, and a group \<open>address\<close>
  holding a group \<open>items\<close> with a field \<open>length\<close>.
\<close>

definition ex_items_form :: control where
  "ex_items_form =
     FormGroup ex_valid
       [(''items'', FormArray ex_valid
           [FormGroup ex_valid [(''qty'', FormControl ex_valid)],
            FormGroup ex_valid [(''qty'', FormControl ex_valid)]]),
        (''address'', FormGroup ex_valid
           [(''items'', FormGroup ex_valid [(''length'', FormControl ex_valid)])])]"

text \<open>
  A form whose repeating group \<open>tags\<close> has leaf controls for rows, followed by an invalid,
  touched field \<open>email\<close>; and a form whose repeating group \<open>items\<close> has a first row
  holding a group that is invalid and touched through its field, with no errors of its
  own, again followed by \<open>email\<close>.
\<close>

definition ex_tags_controls :: "(string \<times> control) list" where
  "ex_tags_controls =
     [(''tags'', FormArray ex_invalid_touched [FormControl ex_required_touched, FormControl ex_valid]),
      (''email'', FormControl ex_required_touched)]"

definition ex_subgroup_controls :: "(string \<times> control) list" where
  "ex_subgroup_controls =
     [(''items'', FormArray ex_invalid_touched
         [FormGroup ex_invalid_touched
            [(''address'', FormGroup ex_invalid_touched [(''city'', FormControl ex_required_touched)])],
          FormGroup ex_valid [(''qty'', FormControl ex_valid)]]),
      (''email'', FormControl ex_required_touched)]"

text \<open>Whether a call threw.\<close>

fun threw :: "'a outcome \<Rightarrow> bool" where
  "threw (Returned a) = False"
| "threw (Threw e a) = True"

section \<open>Paths and \<open>setErrors\<close>\<close>

lemma props_of_map_props [simp]: "props_of (map_props f c) = f (props_of c)"
  by (cases c) simp_all

lemma control_at_append:
  "control_at c (p @ q) = (case control_at c p of None \<Rightarrow> None | Some g \<Rightarrow> control_at g q)"
proof (induction c p rule: control_at.induct)
  case (1 c) show ?case by simp
next
  case (2 p n ns) show ?case by simp
next
  case (3 p kids n ns) then show ?case by (simp split: option.splits)
next
  case (4 p rows n ns) then show ?case by (simp split: option.splits)
qed

lemma control_at_map_props_Cons [simp]:
  "control_at (map_props f c) (n # ns) = control_at c (n # ns)"
  by (cases c) simp_all

lemma control_at_updateControlsErrors_Cons [simp]:
  "control_at (updateControlsErrors c) (n # ns) = control_at c (n # ns)"
  by (simp add: updateControlsErrors_def)

lemma get_path_map_props_Cons [simp]:
  "get_path lib (map_props f c) (n # ns) = get_path lib c (n # ns)"
  by (cases c) simp_all

lemma get_path_updateControlsErrors_Cons [simp]:
  "get_path lib (updateControlsErrors c) (n # ns) = get_path lib c (n # ns)"
  by (simp add: updateControlsErrors_def)

lemma errors_updateControlsErrors [simp]:
  "errors (props_of (updateControlsErrors c)) = errors (props_of c)"
  by (simp add: updateControlsErrors_def)

lemma index_of_less: "index_of n len = Some i \<Longrightarrow> i < len"
  by (auto simp: index_of_def find_Some_iff)



lemma map_of_update_same: "map_of (AList.update n v kids) n = Some v"
  by (simp add: AList.update_conv')


text \<open>
  \<open>get\<close> finds a control exactly where the path leads to one.
\<close>

lemma get_path_Found_iff: "(get_path lib c p = Found t) = (control_at c p = Some t)"
proof (induction c p rule: control_at.induct)
  case (1 c) show ?case by auto
next
  case (2 p n ns) show ?case by simp
next
  case (3 p kids n ns) then show ?case by (simp split: option.splits)
next
  case (4 p rows n ns) then show ?case by (simp split: option.splits)
qed

lemma form_get_Found: "form_get lib f path = Found t \<Longrightarrow> control_at f (split_dot path) = Some t"
  by (simp add: form_get_def get_path_Found_iff)

lemma form_get_Found_iff:
  "(form_get lib f path = Found t) = (control_at f (split_dot path) = Some t)"
  by (simp add: form_get_def get_path_Found_iff)

text \<open>
  After \<open>setErrors(e)\<close> on the control at a path, that control carries \<open>e\<close>, and the errors
  of every other control are as before.
\<close>

lemma errors_at_setErrorsAt:
  "control_at c p \<noteq> None \<Longrightarrow> errors_at (setErrorsAt p e c) p = Some e"
proof (induction p e c rule: setErrorsAt.induct)
  case (1 e c)
  show ?case by (simp add: errors_at_def)
next
  case (2 n ns e p)
  then show ?case by simp
next
  case (3 n ns e p kids)
  then show ?case
    by (auto simp: errors_at_def map_of_update_same split: option.splits)
next
  case (4 n ns e p rows)
  then show ?case
    by (auto simp: errors_at_def index_of_less split: option.splits)
qed






lemma split_dot_ne [simp]: "split_dot s \<noteq> []"
  by (induction s) (auto split: list.splits)

lemma split_dot_ne' [simp]: "[] \<noteq> split_dot s"
  by (metis split_dot_ne)

lemma split_dot_append: "split_dot (a @ CHR ''.'' # b) = split_dot a @ split_dot b"
  by (induction a) (auto split: list.splits)


lemma get_prop_singleton [simp]: "get_prop (JObj [(k, v)]) k = v"
  by simp

section \<open>Properties of the server-error mapper\<close>





text \<open>
  Claim C1, as amended. For a payload whose value under an outer key is a nested mapping,
  each inner key is handled by a two-tier lookup with \<open>get\<close>. The entry of the outer key
  runs the callback on the inner keys in turn. Where the lookup of the inner key under the
  root form gives a control, the message is attached there as \<open>{serverError: message}\<close>.
  Where that lookup gives nothing (\<open>null\<close>), and the outer key names a control that
  contains the inner key, the message is attached inside that control, at \<open>outer.inner\<close>;
  so it is for the payload \<open>{outer: {inner: msg}}\<close> as a whole. This holds for every
  library \<open>lib\<close>.
\<close>

theorem nested_two_tier_lookup:
  "(get_prop serverError outer = JObj kvs \<longrightarrow>
      setErrorToFormFields_step lib serverError outer f
        = forEach (map fst kvs) (setErrorsToNestedFields_step lib (JObj kvs) outer) f)
   \<and> (form_get lib f inner = Found c \<longrightarrow>
      setErrorsToNestedFields_step lib nested outer inner f
        = Returned (setErrorsAt (split_dot inner) (serverErrorOf (get_prop nested inner)) f)
      \<and> errors_at (setErrorsAt (split_dot inner) (serverErrorOf (get_prop nested inner)) f)
            (split_dot inner) = Some (serverErrorOf (get_prop nested inner)))
   \<and> (form_get lib f inner = NoControl Nothing \<and> form_get lib f outer = Found g
        \<and> form_get lib g inner = Found t \<longrightarrow>
      (\<exists>f'. setErrorsToNestedFields_step lib nested outer inner f = Returned f'
          \<and> errors_at f' (split_dot (outer @ ''.'' @ inner))
                = Some (serverErrorOf (get_prop nested inner)))
      \<and> (\<exists>f'. organizeServerErrors lib (JObj [(outer, JObj [(inner, msg)])])
                   \<lparr>form = f, signals = sg\<rparr>
                 = Returned \<lparr>form = f', signals = sg\<rparr>
          \<and> errors_at f' (split_dot (outer @ ''.'' @ inner)) = Some (serverErrorOf msg)))"
proof (intro conjI impI)
  assume "get_prop serverError outer = JObj kvs"
  then show "setErrorToFormFields_step lib serverError outer f
        = forEach (map fst kvs) (setErrorsToNestedFields_step lib (JObj kvs) outer) f"
    by (simp add: setErrorToFormFields_step_def setErrorsToNestedFields_def)
next
  assume "form_get lib f inner = Found c"
  then show "setErrorsToNestedFields_step lib nested outer inner f
        = Returned (setErrorsAt (split_dot inner) (serverErrorOf (get_prop nested inner)) f)"
    by (simp add: setErrorsToNestedFields_step_def)
next
  assume "form_get lib f inner = Found c"
  then show "errors_at (setErrorsAt (split_dot inner) (serverErrorOf (get_prop nested inner)) f)
            (split_dot inner) = Some (serverErrorOf (get_prop nested inner))"
    by (simp add: errors_at_setErrorsAt form_get_Found_iff)
next
  assume a: "form_get lib f inner = NoControl Nothing \<and> form_get lib f outer = Found g
        \<and> form_get lib g inner = Found t"
  then have path: "control_at f (split_dot outer @ split_dot inner) \<noteq> None"
    by (simp add: control_at_append form_get_Found_iff)
  have step: "setErrorsToNestedFields_step lib nested outer inner f
      = Returned (setErrorsAt (split_dot outer @ split_dot inner)
                    (serverErrorOf (get_prop nested inner)) f)" for nested
    using a by (simp add: setErrorsToNestedFields_step_def setErrorsToNestedFields_else_def)
  have at: "errors_at (setErrorsAt (split_dot outer @ split_dot inner) e f)
              (split_dot (outer @ ''.'' @ inner)) = Some e" for e
    using path by (simp add: split_dot_append errors_at_setErrorsAt)
  show "\<exists>f'. setErrorsToNestedFields_step lib nested outer inner f = Returned f'
          \<and> errors_at f' (split_dot (outer @ ''.'' @ inner))
                = Some (serverErrorOf (get_prop nested inner))"
    using step at by simp
  have "organizeServerErrors lib (JObj [(outer, JObj [(inner, msg)])]) \<lparr>form = f, signals = sg\<rparr>
      = Returned \<lparr>form = setErrorsAt (split_dot outer @ split_dot inner) (serverErrorOf msg) f,
                   signals = sg\<rparr>"
    using step [of "JObj [(inner, msg)]"]
    by (simp add: organizeServerErrors_def setErrorToFormFields_def setErrorToFormFields_step_def
        setErrorsToNestedFields_def)
  then show "\<exists>f'. organizeServerErrors lib (JObj [(outer, JObj [(inner, msg)])])
                   \<lparr>form = f, signals = sg\<rparr>
                 = Returned \<lparr>form = f', signals = sg\<rparr>
          \<and> errors_at f' (split_dot (outer @ ''.'' @ inner)) = Some (serverErrorOf msg)"
    using at by simp
qed

text \<open>
  The payload \<open>{"address": {"city": "Required"}}\<close> on a form with no field \<open>city\<close> but a
  group \<open>address\<close> holding \<open>city\<close>; an inner key \<open>email\<close> that the root form itself has;
  and the entry of \<open>address\<close> as the loop over its inner keys.
\<close>

theorem nested_two_tier_lookup_witness:
  "(\<exists>f'. organizeServerErrors ex_lib (JObj [(''address'', JObj [(''city'', JStr ''Required'')])])
            \<lparr>form = ex_address_form, signals = []\<rparr> = Returned \<lparr>form = f', signals = []\<rparr>
        \<and> errors_at f' (split_dot ''address.city'') = Some (JObj [(''serverError'', JStr ''Required'')]))
   \<and> setErrorsToNestedFields_step ex_lib (JObj [(''email'', JStr ''Taken'')]) ''address'' ''email''
          ex_address_form
        = Returned (setErrorsAt [''email''] (JObj [(''serverError'', JStr ''Taken'')]) ex_address_form)
   \<and> setErrorToFormFields_step ex_lib (JObj [(''address'', JObj [(''city'', JStr ''Required'')])])
          ''address'' ex_address_form
        = forEach [''city'']
            (setErrorsToNestedFields_step ex_lib (JObj [(''city'', JStr ''Required'')]) ''address'')
            ex_address_form"
proof -
  have h1: "form_get ex_lib ex_address_form ''city'' = NoControl Nothing
      \<and> form_get ex_lib ex_address_form ''address''
           = Found (FormGroup ex_valid [(''city'', FormControl ex_valid)])
      \<and> form_get ex_lib (FormGroup ex_valid [(''city'', FormControl ex_valid)]) ''city''
           = Found (FormControl ex_valid)"
    by code_simp
  have h2: "form_get ex_lib ex_address_form ''email'' = Found (FormControl ex_valid)"
    by code_simp
  have h3: "get_prop (JObj [(''address'', JObj [(''city'', JStr ''Required'')])]) ''address''
      = JObj [(''city'', JStr ''Required'')]"
    by simp
  have s: "split_dot ''email'' = [''email'']" by code_simp
  from nested_two_tier_lookup [where f = ex_address_form and outer = "''address''"
      and lib = ex_lib and t = "FormControl ex_valid"
      and inner = "''city''" and g = "FormGroup ex_valid [(''city'', FormControl ex_valid)]"
      and msg = "JStr ''Required''" and sg = "[]"] h1
    nested_two_tier_lookup [where f = ex_address_form and outer = "''address''"
      and lib = ex_lib and c = "FormControl ex_valid"
      and inner = "''email''" and nested = "JObj [(''email'', JStr ''Taken'')]"] h2 s
    nested_two_tier_lookup [where f = ex_address_form and outer = "''address''"
      and lib = ex_lib
      and serverError = "JObj [(''address'', JObj [(''city'', JStr ''Required'')])]"
      and kvs = "[(''city'', JStr ''Required'')]"] h3
  show ?thesis by (simp add: serverErrorOf_def)
qed

text \<open>
  Claim C1 as stated has the second tier taken whenever no control is found under the
  root. Under a root with a repeating group \<open>items\<close> of two rows, the lookup of
  \<open>items.length\<close> gives the number 2, which is no control and is truthy: for the payload
  \<open>{"address": {"items.length": "Required"}}\<close> the source takes the first tier and calls
  \<open>setErrors\<close> on the number, a \<open>TypeError\<close>, although the group \<open>address\<close> holds a control
  at \<open>items.length\<close>. So it is with either library.
\<close>

theorem nested_non_control_counterexample:
  "form_get ex_lib ex_items_form ''items.length'' = NoControl TruthyValue
   \<and> form_get ex_lib14 ex_items_form ''items.length'' = NoControl TruthyValue
   \<and> errors_at ex_items_form (split_dot ''address.items.length'') = Some JNull
   \<and> organizeServerErrors ex_lib (JObj [(''address'', JObj [(''items.length'', JStr ''Required'')])])
        \<lparr>form = ex_items_form, signals = []\<rparr>
      = Threw TypeError \<lparr>form = ex_items_form, signals = []\<rparr>
   \<and> organizeServerErrors ex_lib14 (JObj [(''address'', JObj [(''items.length'', JStr ''Required'')])])
        \<lparr>form = ex_items_form, signals = []\<rparr>
      = Threw TypeError \<lparr>form = ex_items_form, signals = []\<rparr>"
  by code_simp

text \<open>
  Claim C2. A nested entry for which neither lookup succeeds is to be dropped silently.
  Where the outer key names no control of the root form, the source calls \<open>get\<close> on
  \<open>null\<close>: the payload \<open>{"address": {"city": "Required"}}\<close> on a form whose only field is
  \<open>email\<close> ends in a \<open>TypeError\<close>.
\<close>

theorem nested_lookup_miss_throws:
  "organizeServerErrors lib (JObj [(''address'', JObj [(''city'', JStr ''Required'')])])
     \<lparr>form = ex_login_form, signals = []\<rparr>
   = Threw TypeError \<lparr>form = ex_login_form, signals = []\<rparr>"
  by (simp add: organizeServerErrors_def setErrorToFormFields_def setErrorToFormFields_step_def
      setErrorsToNestedFields_def setErrorsToNestedFields_step_def setErrorsToNestedFields_else_def
      form_get_def ex_login_form_def)

text \<open>
  The cases of a miss in general: the message is dropped where the outer key names a
  control that lacks the inner key; the call throws where the outer key names no control,
  and where the lookup of the inner key gives a truthy value that is no control or throws
  itself.
\<close>

lemma nested_lookup_miss_dropped:
  "form_get lib f inner = NoControl Nothing \<Longrightarrow> form_get lib f outer = Found g
   \<Longrightarrow> form_get lib g inner = NoControl Nothing
   \<Longrightarrow> setErrorsToNestedFields_step lib nested outer inner f = Returned f"
  by (simp add: setErrorsToNestedFields_step_def setErrorsToNestedFields_else_def)

lemma nested_lookup_outer_missing:
  "form_get lib f inner = NoControl Nothing \<Longrightarrow> form_get lib f outer = NoControl x
   \<Longrightarrow> setErrorsToNestedFields_step lib nested outer inner f = Threw TypeError f"
  by (simp add: setErrorsToNestedFields_step_def setErrorsToNestedFields_else_def)

lemma lookup_non_control_throws:
  "form_get lib f inner = NoControl TruthyValue \<or> form_get lib f inner = NoControl LookupFails
   \<Longrightarrow> setErrorsToNestedFields_step lib nested outer inner f = Threw TypeError f"
  by (auto simp: setErrorsToNestedFields_step_def)

text \<open>
  A falsy value that is no control is taken for a miss of the first tier.
\<close>

lemma lookup_falsy_second_tier:
  "form_get lib f inner = NoControl FalsyValue
   \<Longrightarrow> setErrorsToNestedFields_step lib nested outer inner f
       = setErrorsToNestedFields_else lib nested outer inner f"
  by (simp add: setErrorsToNestedFields_step_def)



text \<open>
  A key that leads to a value that is no control ends the call: \<open>items.length\<close> under a
  root with a repeating group \<open>items\<close>, with either library; and with Angular from
  version 14 the same key where the repeating group has no rows, the number 0 not being
  \<open>null\<close>.
\<close>

lemma key_to_non_control_throws:
  "organizeServerErrors ex_lib (JObj [(''items.length'', JArr [JStr ''Too many''])])
     \<lparr>form = ex_items_form, signals = []\<rparr>
   = Threw TypeError \<lparr>form = ex_items_form, signals = []\<rparr>
   \<and> organizeServerErrors ex_lib14 (JObj [(''items.length'', JArr [JStr ''Too many''])])
     \<lparr>form = ex_items_form, signals = []\<rparr>
   = Threw TypeError \<lparr>form = ex_items_form, signals = []\<rparr>"
  by code_simp

lemma key_to_zero_throws:
  "organizeServerErrors ex_lib14 (JObj [(''items.length'', JArr [JStr ''Too many''])])
     \<lparr>form = FormGroup ex_valid [(''items'', FormArray ex_valid [])], signals = []\<rparr>
   = Threw TypeError \<lparr>form = FormGroup ex_valid [(''items'', FormArray ex_valid [])], signals = []\<rparr>
   \<and> organizeServerErrors ex_lib (JObj [(''items.length'', JArr [JStr ''Too many''])])
     \<lparr>form = FormGroup ex_valid [(''items'', FormArray ex_valid [])], signals = []\<rparr>
   = Returned \<lparr>form = FormGroup ex_valid [(''items'', FormArray ex_valid [])], signals = []\<rparr>"
  by code_simp

text \<open>
  Claim C7, as amended. For every payload that is an array, the mapper assigns nothing
  to any field, signals the malformed payload (the alert and the dump of the payload on
  the console) and returns.
\<close>

theorem malformed_array_fallback:
  "organizeServerErrors lib (JArr xs) s
     = Returned (s\<lparr>signals := signals s @
          [Alert ''No object this time, look console'', ConsoleLog (JArr xs)]\<rparr>)
   \<and> form (state_of (organizeServerErrors lib (JArr xs) s)) = form s"
  by (simp add: organizeServerErrors_def)

theorem malformed_array_fallback_witness:
  "organizeServerErrors ex_lib (JArr [JStr ''Server Error'']) \<lparr>form = ex_login_form, signals = []\<rparr>
     = Returned \<lparr>form = ex_login_form, signals =
          [Alert ''No object this time, look console'', ConsoleLog (JArr [JStr ''Server Error''])]\<rparr>"
  using malformed_array_fallback [of ex_lib "[JStr ''Server Error'']"
      "\<lparr>form = ex_login_form, signals = []\<rparr>"]
  by simp

text \<open>
  Claim C7 as stated speaks of every payload that is not key-value shaped. A string is
  such a payload and is no array: the mapper takes it for an object, walks its characters
  as keys and throws, without the fallback signal.
\<close>

theorem malformed_string_counterexample:
  "organizeServerErrors ex_lib (JStr ''Server Error'') \<lparr>form = ex_login_form, signals = []\<rparr>
     = Threw TypeError \<lparr>form = ex_login_form, signals = []\<rparr>"
  by code_simp

text \<open>
  A number is no array either: the mapper finds no keys and returns without any signal.
\<close>

lemma malformed_number_no_signal:
  "organizeServerErrors lib (JNum ''500'') s = Returned s"
  by (simp add: organizeServerErrors_def setErrorToFormFields_def)

text \<open>
  Claim C10. With a \<open>null\<close> or \<open>undefined\<close> payload the entry point returns at once: the
  form and the signals are as before, and nothing is thrown.
\<close>

theorem organizeServerErrors_null_noop:
  "organizeServerErrors lib JNull s = Returned s
   \<and> organizeServerErrors lib JUndefined s = Returned s"
  by (simp add: organizeServerErrors_def)

theorem organizeServerErrors_null_noop_witness:
  "organizeServerErrors ex_lib JNull \<lparr>form = ex_address_form, signals = []\<rparr>
     = Returned \<lparr>form = ex_address_form, signals = []\<rparr>
   \<and> organizeServerErrors ex_lib JUndefined \<lparr>form = ex_address_form, signals = []\<rparr>
     = Returned \<lparr>form = ex_address_form, signals = []\<rparr>"
  using organizeServerErrors_null_noop [of ex_lib "\<lparr>form = ex_address_form, signals = []\<rparr>"]
  by simp

section \<open>The scanner computes what a scan records\<close>

lemma js_error_TypeError: "(e :: js_error) = TypeError"
  by (cases e) simp

lemma fun_upd_idem_rev [simp]: "(f = f(x := y)) = (f x = y)"
  by (metis fun_upd_idem_iff)

lemma fun_upd_fold [simp]: "(\<lambda>a. if a = x then y else f a) = f(x := y)"
  by (simp add: fun_upd_def)

lemma row_forEach:
  "acc name = Some (Rows rs) \<Longrightarrow> i < length rs \<Longrightarrow>
   (row_fold controls ks (rs ! i) = Returned m \<longrightarrow>
      forEach ks (findErrorsOnFormArrays_step controls i name) acc
        = Returned (acc(name \<mapsto> Rows (rs[i := m]))))
   \<and> (row_fold controls ks (rs ! i) = Threw e m \<longrightarrow>
      forEach ks (findErrorsOnFormArrays_step controls i name) acc
        = Threw e (acc(name \<mapsto> Rows (rs[i := m]))))"
proof (induction ks arbitrary: acc rs)
  case Nil
  show ?case
  proof (intro conjI impI)
    assume "row_fold controls [] (rs ! i) = Returned m"
    then have m: "rs ! i = m" by simp
    have "acc(name \<mapsto> Rows (rs[i := rs ! i])) = acc"
      using Nil by (intro map_upd_triv) simp
    then have "acc(name \<mapsto> Rows (rs[i := m])) = acc"
      unfolding m .
    then show "forEach [] (findErrorsOnFormArrays_step controls i name) acc
        = Returned (acc(name \<mapsto> Rows (rs[i := m])))"
      by (simp only: forEach.simps)
  next
    assume "row_fold controls [] (rs ! i) = Threw e m"
    then show "forEach [] (findErrorsOnFormArrays_step controls i name) acc
        = Threw e (acc(name \<mapsto> Rows (rs[i := m])))"
      by simp
  qed
next
  case (Cons k ks)
  from Cons.prems have triv: "acc name = Some (Rows rs)" by simp
  show ?case
  proof (cases "map_of controls k")
    case None
    with Cons.prems triv show ?thesis
      by (auto simp: findErrorsOnFormArrays_step_def)
  next
    case (Some c)
    show ?thesis
    proof (cases "hasError c")
      case False
      with Some Cons.IH [of acc rs] Cons.prems show ?thesis
        by (simp add: findErrorsOnFormArrays_step_def)
    next
      case True
      show ?thesis
      proof (cases "setErrorMessage (errors (props_of c))")
        case (Inl e')
        with Some True Cons.prems triv show ?thesis
          by (auto simp: findErrorsOnFormArrays_step_def)
      next
        case (Inr message)
        let ?rs = "rs[i := (rs ! i)(k \<mapsto> message)]"
        let ?acc = "acc(name \<mapsto> Rows ?rs)"
        have s: "findErrorsOnFormArrays_step controls i name k acc = Returned ?acc"
          using Some True Inr Cons.prems by (simp add: findErrorsOnFormArrays_step_def)
        have p: "?acc name = Some (Rows ?rs)" "i < length ?rs"
          using Cons.prems by simp_all
        have r: "row_fold controls (k # ks) (rs ! i) = row_fold controls ks (?rs ! i)"
          using Some True Inr Cons.prems by simp
        have u: "?acc(name \<mapsto> Rows (?rs[i := m])) = acc(name \<mapsto> Rows (rs[i := m]))"
          by simp
        from Cons.IH [of ?acc ?rs] p s r u show ?thesis by simp
      qed
    qed
  qed
qed

lemma loop_rows_fold:
  "acc name = Some (Rows rs) \<Longrightarrow> i = length rs \<Longrightarrow>
   (rows_fold rows rs = Returned rs' \<longrightarrow>
      findErrorsOnFormArrays_loop rows i name acc = Returned (acc(name \<mapsto> Rows rs')))
   \<and> (rows_fold rows rs = Threw e rs' \<longrightarrow>
      findErrorsOnFormArrays_loop rows i name acc = Threw e (acc(name \<mapsto> Rows rs')))"
proof (induction rows arbitrary: acc rs i)
  case Nil
  show ?case
  proof (intro conjI impI)
    assume "rows_fold [] rs = Returned rs'"
    then have r: "rs = rs'" by simp
    have "acc(name \<mapsto> Rows rs) = acc"
      using Nil by (intro map_upd_triv) simp
    then have "acc(name \<mapsto> Rows rs') = acc"
      unfolding r .
    then show "findErrorsOnFormArrays_loop [] i name acc = Returned (acc(name \<mapsto> Rows rs'))"
      by (simp only: findErrorsOnFormArrays_loop.simps)
  next
    assume "rows_fold [] rs = Threw e rs'"
    then show "findErrorsOnFormArrays_loop [] i name acc = Threw e (acc(name \<mapsto> Rows rs'))"
      by simp
  qed
next
  case (Cons r rest)
  let ?acc1 = "acc(name \<mapsto> Rows (rs @ [Map.empty]))"
  show ?case
  proof (cases "controls_of r")
    case None
    with Cons.prems show ?thesis by (auto simp: js_error_TypeError)
  next
    case (Some controls)
    have p: "?acc1 name = Some (Rows (rs @ [Map.empty]))" "i < length (rs @ [Map.empty])"
      using Cons.prems by simp_all
    have nth: "(rs @ [Map.empty]) ! i = Map.empty" using Cons.prems by simp
    show ?thesis
    proof (cases "row_fold controls (map fst controls) Map.empty")
      case (Returned m)
      let ?acc2 = "acc(name \<mapsto> Rows (rs @ [m]))"
      from row_forEach [where acc = ?acc1 and name = name and rs = "rs @ [Map.empty]" and i = i
          and controls = controls and ks = "map fst controls" and m = m] p Returned nth Cons.prems
      have f: "forEach (map fst controls) (findErrorsOnFormArrays_step controls i name) ?acc1
          = Returned ?acc2" by simp
      have q: "?acc2 name = Some (Rows (rs @ [m]))" "i + 1 = length (rs @ [m])"
        using Cons.prems by simp_all
      have u: "?acc2(name \<mapsto> Rows rs') = acc(name \<mapsto> Rows rs')" by simp
      from Cons.IH [of ?acc2 "rs @ [m]" "i + 1"] q f u Some Returned Cons.prems show ?thesis by simp
    next
      case (Threw e' m)
      from row_forEach [where acc = ?acc1 and name = name and rs = "rs @ [Map.empty]" and i = i
          and controls = controls and ks = "map fst controls" and m = m and e = e']
        p Threw nth Cons.prems
      have "forEach (map fst controls) (findErrorsOnFormArrays_step controls i name) ?acc1
          = Threw e' (acc(name \<mapsto> Rows (rs @ [m])))" by simp
      with Some Threw Cons.prems show ?thesis by auto
    qed
  qed
qed

lemma findErrors_step_write:
  "map_of controls k = Some c \<Longrightarrow>
   (child_write c = Returned w \<longrightarrow> findErrors_step controls k acc = Returned (write_to k w acc))
   \<and> (child_write c = Threw e w \<longrightarrow> findErrors_step controls k acc = Threw e (write_to k w acc))"
proof (cases c)
  case (FormControl p)
  assume "map_of controls k = Some c"
  with FormControl show ?thesis
    by (auto simp: findErrors_step_def findErrorsOnFormControls_def write_to_def
        setErrorToErrorObject_def split: sum.splits if_splits)
next
  case (FormGroup p kids)
  assume "map_of controls k = Some c"
  with FormGroup show ?thesis by (simp add: findErrors_step_def write_to_def)
next
  case (FormArray p rows)
  assume c: "map_of controls k = Some c"
  have p: "(acc(k \<mapsto> Rows [])) k = Some (Rows [])" "0 = length ([] :: (string \<rightharpoonup> jsval) list)"
    by simp_all
  have u: "(acc(k \<mapsto> Rows [])) (k \<mapsto> Rows rs') = acc(k \<mapsto> Rows rs')" for rs'
    by simp
  show ?thesis
  proof (cases "rows_fold rows []")
    case (Returned rs')
    from loop_rows_fold [where acc = "acc(k \<mapsto> Rows [])" and name = k and rs = "[]"
        and i = 0 and rows = rows and rs' = rs'] Returned u c FormArray show ?thesis
      by (auto simp: findErrors_step_def findErrorsOnFormArrays_def write_to_def)
  next
    case (Threw e' rs')
    from loop_rows_fold [where acc = "acc(k \<mapsto> Rows [])" and name = k and rs = "[]"
        and i = 0 and rows = rows and rs' = rs' and e = e'] Threw u c FormArray show ?thesis
      by (auto simp: findErrors_step_def findErrorsOnFormArrays_def write_to_def)
  qed
qed

lemma findErrors_step_absent:
  "map_of controls k = None \<Longrightarrow> findErrors_step controls k acc = Returned acc"
  by (simp add: findErrors_step_def)

lemma findErrors_step_eq:
  "findErrors_step controls k acc =
     (if throws controls k then Threw TypeError (write_to k (write_of controls k) acc)
      else Returned (write_to k (write_of controls k) acc))"
proof (cases "map_of controls k")
  case None
  then show ?thesis
    by (simp add: findErrors_step_absent throws_def write_of_def write_to_def)
next
  case (Some c)
  show ?thesis
  proof (cases "child_write c")
    case (Returned w)
    with Some findErrors_step_write [OF Some, where w = w and acc = acc] show ?thesis
      by (simp add: throws_def write_of_def)
  next
    case (Threw e w)
    with Some findErrors_step_write [OF Some, where w = w and acc = acc and e = e] show ?thesis
      by (simp add: throws_def write_of_def js_error_TypeError [of e])
  qed
qed

lemma forEach_no_throw:
  "\<forall>k\<in>set ks. \<not> throws controls k \<Longrightarrow>
   forEach ks (findErrors_step controls) acc = Returned (apply_writes controls ks acc)"
  by (induction ks arbitrary: acc) (simp_all add: findErrors_step_eq)

lemma forEach_Returned_no_throw:
  "forEach ks (findErrors_step controls) acc = Returned acc' \<Longrightarrow> \<forall>k\<in>set ks. \<not> throws controls k"
  by (induction ks arbitrary: acc) (auto simp: findErrors_step_eq split: if_splits)

lemma write_to_apply:
  "write_to k w acc name = (if name = k then (case w of None \<Rightarrow> acc name | Some v \<Rightarrow> Some v) else acc name)"
  by (simp add: write_to_def split: option.splits)

lemma apply_writes_apply:
  "apply_writes controls ks acc name =
     (if name \<in> set ks then (case write_of controls name of None \<Rightarrow> acc name | Some v \<Rightarrow> Some v)
      else acc name)"
  by (induction ks arbitrary: acc) (auto simp: write_to_apply split: option.splits)

lemma apply_writes_idem:
  "apply_writes controls ks (apply_writes controls ks acc) = apply_writes controls ks acc"
  by (rule ext) (simp add: apply_writes_apply split: option.splits)

lemma forEach_frame:
  "write_of controls name = None \<Longrightarrow>
   state_of (forEach ks (findErrors_step controls) acc) name = acc name"
  by (induction ks arbitrary: acc) (auto simp: findErrors_step_eq write_to_apply split: option.splits)


lemma printable_primitive [simp]:
  "printable JUndefined" "printable JNull" "printable (JBool b)" "printable (JNum n)"
  "printable (JStr s)"
  by (simp_all add: printable_def)

lemma field_ok_message:
  "field_ok c \<Longrightarrow> hasError c \<Longrightarrow> \<exists>m. setErrorMessage (errors (props_of c)) = Inr m"
  by (cases "setErrorMessage (errors (props_of c))") (auto simp: field_ok_def)

lemma row_fold_ok:
  assumes "list_all (\<lambda>kv. field_ok (snd kv)) kids" "set ks \<subseteq> fst ` set kids"
  shows "\<exists>m'. row_fold kids ks m = Returned m'
     \<and> (\<forall>n. m' n = (if n \<in> set ks then (case row_messages (FormGroup p kids) n of
                                           None \<Rightarrow> m n | Some v \<Rightarrow> Some v)
                    else m n))"
  using assms(2)
proof (induction ks arbitrary: m)
  case Nil
  then show ?case by simp
next
  case (Cons k ks)
  then obtain c where c: "map_of kids k = Some c"
    by (metis list.set_intros(1) map_of_eq_None_iff not_Some_eq subsetD)
  then have "(k, c) \<in> set kids" by (rule map_of_SomeD)
  with assms(1) have ok: "field_ok c" by (auto simp: list_all_iff)
  show ?case
  proof (cases "hasError c")
    case False
    from Cons.IH [of m] Cons.prems obtain m' where
      "row_fold kids ks m = Returned m'"
      "\<forall>n. m' n = (if n \<in> set ks then (case row_messages (FormGroup p kids) n of
                                           None \<Rightarrow> m n | Some v \<Rightarrow> Some v) else m n)"
      by auto
    with c False show ?thesis
      by (auto simp: row_messages_def)
  next
    case True
    with ok obtain message where msg: "setErrorMessage (errors (props_of c)) = Inr message"
      using field_ok_message by blast
    from Cons.IH [of "m(k \<mapsto> message)"] Cons.prems obtain m' where
      "row_fold kids ks (m(k \<mapsto> message)) = Returned m'"
      "\<forall>n. m' n = (if n \<in> set ks then (case row_messages (FormGroup p kids) n of
                        None \<Rightarrow> (m(k \<mapsto> message)) n | Some v \<Rightarrow> Some v)
                    else (m(k \<mapsto> message)) n)"
      by auto
    with c True msg show ?thesis
      by (auto simp: row_messages_def split: option.splits if_splits)
  qed
qed

lemma row_fold_row_messages:
  assumes "row_ok row"
  shows "\<exists>controls. controls_of row = Some controls
     \<and> row_fold controls (map fst controls) Map.empty = Returned (row_messages row)"
proof (cases row)
  case (FormGroup p kids)
  with assms have ok: "list_all (\<lambda>kv. field_ok (snd kv)) kids" by simp
  from row_fold_ok [OF ok, of "map fst kids" Map.empty p] obtain m' where
    r: "row_fold kids (map fst kids) Map.empty = Returned m'"
    and m: "\<forall>n. m' n = (if n \<in> set (map fst kids) then (case row_messages (FormGroup p kids) n of
                                           None \<Rightarrow> None | Some v \<Rightarrow> Some v) else None)"
    by auto
  have "m' = row_messages (FormGroup p kids)"
  proof (rule ext)
    fix n
    show "m' n = row_messages (FormGroup p kids) n"
    proof (cases "n \<in> set (map fst kids)")
      case True
      with m show ?thesis by (simp split: option.splits)
    next
      case False
      then have "map_of kids n = None" by (simp add: map_of_eq_None_iff)
      with m False show ?thesis by (simp add: row_messages_def)
    qed
  qed
  with r FormGroup show ?thesis by simp
next
  case (FormControl p)
  with assms show ?thesis by simp
next
  case (FormArray p rows)
  with assms show ?thesis by simp
qed

lemma rows_fold_ok:
  "list_all row_ok rows \<Longrightarrow> rows_fold rows rs = Returned (rs @ map row_messages rows)"
proof (induction rows arbitrary: rs)
  case Nil
  then show ?case by simp
next
  case (Cons r rest)
  then have "row_ok r" by simp
  from row_fold_row_messages [OF this] obtain controls where
    "controls_of r = Some controls"
    "row_fold controls (map fst controls) Map.empty = Returned (row_messages r)"
    by auto
  with Cons show ?case by simp
qed

lemma child_ok_write:
  assumes "child_ok c"
  shows "child_write c = Returned
     (case c of
        FormArray p rows \<Rightarrow> Some (Rows (map row_messages rows))
      | FormControl p \<Rightarrow>
          (if hasError c then
             (case setErrorMessage (errors p) of Inl e \<Rightarrow> None | Inr message \<Rightarrow> Some (Msg message))
           else None)
      | FormGroup p kids \<Rightarrow> None)"
proof (cases c)
  case (FormControl p)
  with assms show ?thesis
    using field_ok_message [of "FormControl p"] by auto
next
  case (FormGroup p kids)
  then show ?thesis by simp
next
  case (FormArray p rows)
  with assms rows_fold_ok [of rows "[]"] show ?thesis by simp
qed

lemma scannable_no_throw:
  assumes "scannable controls"
  shows "\<not> throws controls k"
proof (cases "map_of controls k")
  case None
  then show ?thesis by (simp add: throws_def)
next
  case (Some c)
  then have "(k, c) \<in> set controls" by (rule map_of_SomeD)
  with assms have "child_ok c" by (auto simp: scannable_def list_all_iff)
  from child_ok_write [OF this] Some show ?thesis by (simp add: throws_def)
qed

lemma scannable_findErrors:
  assumes "scannable controls"
  shows "findErrors controls acc = Returned (apply_writes controls (map fst controls) acc)"
  unfolding findErrors_def
  by (rule forEach_no_throw) (simp add: scannable_no_throw [OF assms])

lemma forEach_scanned_keys:
  "forEach ks (findErrors_step controls) acc =
     (if list_ex (throws controls) ks
      then Threw TypeError (apply_writes controls (scanned_keys controls ks) acc)
      else Returned (apply_writes controls (scanned_keys controls ks) acc))"
  by (induction ks arbitrary: acc) (simp_all add: findErrors_step_eq)

lemma findErrors_again:
  "findErrors controls (state_of (findErrors controls acc)) = findErrors controls acc"
  by (simp add: findErrors_def forEach_scanned_keys apply_writes_idem)

lemma row_fold_Returned:
  assumes "controls_of row = Some controls" "row_fold controls ks m = Returned m'"
  shows "(\<forall>n. m' n = (if n \<in> set ks then (case row_messages row n of
                                           None \<Rightarrow> m n | Some v \<Rightarrow> Some v)
                    else m n))
     \<and> (\<forall>k\<in>set ks. \<exists>c. map_of controls k = Some c
            \<and> (hasError c \<longrightarrow> (\<exists>msg. setErrorMessage (errors (props_of c)) = Inr msg)))"
  using assms(2)
proof (induction ks arbitrary: m)
  case Nil
  then show ?case by simp
next
  case (Cons k ks)
  from Cons.prems obtain c where c: "map_of controls k = Some c"
    by (cases "map_of controls k") auto
  show ?case
  proof (cases "hasError c")
    case False
    with c Cons.prems have "row_fold controls ks m = Returned m'" by simp
    from Cons.IH [OF this] c False assms(1) show ?thesis
      by (auto simp: row_messages_def)
  next
    case True
    with c Cons.prems obtain message where
      msg: "setErrorMessage (errors (props_of c)) = Inr message"
      by (cases "setErrorMessage (errors (props_of c))") auto
    with c True Cons.prems have "row_fold controls ks (m(k \<mapsto> message)) = Returned m'" by simp
    from Cons.IH [OF this] c True msg assms(1) show ?thesis
      by (auto simp: row_messages_def split: option.splits if_splits)
  qed
qed

lemma row_fold_Returned_row_messages:
  assumes "controls_of row = Some controls"
    "row_fold controls (map fst controls) Map.empty = Returned m'"
  shows "m' = row_messages row \<and> row_scanned row"
proof -
  from row_fold_Returned [OF assms] have
    m: "\<forall>n. m' n = (if n \<in> set (map fst controls) then (case row_messages row n of
                                           None \<Rightarrow> None | Some v \<Rightarrow> Some v) else None)"
    and t: "\<forall>k\<in>set (map fst controls). \<exists>c. map_of controls k = Some c
            \<and> (hasError c \<longrightarrow> (\<exists>msg. setErrorMessage (errors (props_of c)) = Inr msg))"
    by auto
  have eq: "m' = row_messages row"
  proof (rule ext)
    fix n
    show "m' n = row_messages row n"
    proof (cases "n \<in> set (map fst controls)")
      case True
      with m show ?thesis by (simp split: option.splits)
    next
      case False
      then have "map_of controls n = None" by (simp add: map_of_eq_None_iff)
      with m False assms(1) show ?thesis by (simp add: row_messages_def)
    qed
  qed
  have "dom (row_messages row) = {n. \<exists>c. map_of controls n = Some c \<and> hasError c}"
  proof (intro set_eqI iffI)
    fix n assume "n \<in> dom (row_messages row)"
    with assms(1) show "n \<in> {n. \<exists>c. map_of controls n = Some c \<and> hasError c}"
      by (auto simp: row_messages_def dom_def split: option.splits if_splits)
  next
    fix n assume "n \<in> {n. \<exists>c. map_of controls n = Some c \<and> hasError c}"
    then obtain c where c: "map_of controls n = Some c" "hasError c" by auto
    then have "n \<in> set (map fst controls)"
      by (metis map_of_eq_None_iff option.distinct(1) set_map)
    with t c obtain msg where "setErrorMessage (errors (props_of c)) = Inr msg" by fastforce
    with c assms(1) show "n \<in> dom (row_messages row)"
      by (auto simp: row_messages_def dom_def)
  qed
  with eq assms(1) show ?thesis by (simp add: row_scanned_def)
qed

lemma rows_fold_Returned:
  "rows_fold rows rs = Returned rs' \<Longrightarrow>
   rs' = rs @ map row_messages rows \<and> list_all row_scanned rows"
proof (induction rows arbitrary: rs)
  case Nil
  then show ?case by simp
next
  case (Cons r rest)
  from Cons.prems obtain controls where cs: "controls_of r = Some controls"
    by (cases "controls_of r") auto
  with Cons.prems obtain m where m: "row_fold controls (map fst controls) Map.empty = Returned m"
    by (cases "row_fold controls (map fst controls) Map.empty") auto
  from row_fold_Returned_row_messages [OF cs m] have r: "m = row_messages r" "row_scanned r"
    by auto
  from cs m Cons.prems have "rows_fold rest (rs @ [m]) = Returned rs'" by simp
  from Cons.IH [OF this] r show ?case by simp
qed

lemma findErrors_Returned:
  assumes "findErrors controls acc = Returned acc'"
  shows "acc' = apply_writes controls (map fst controls) acc
     \<and> (\<forall>k\<in>set (map fst controls). \<not> throws controls k)"
proof -
  from assms have nt: "\<forall>k\<in>set (map fst controls). \<not> throws controls k"
    unfolding findErrors_def by (rule forEach_Returned_no_throw)
  from forEach_no_throw [OF nt, of acc] assms show ?thesis
    by (simp add: findErrors_def nt)
qed


section \<open>Properties of the formatter and of the scanner\<close>



text \<open>
  Claim C5, as amended. For a repeating group among the children of the root form, with
  \<open>n\<close> rows that are groups in which the formatter returns a message for every control
  that is invalid and dirty or touched, the scanner's pass over the group puts under the
  group's name a fresh sequence of exactly \<open>n\<close> row mappings, in row order; the mapping of
  a row has a key exactly for each control of the row that is invalid and dirty or
  touched, bound to its formatted message. Every scan that returns has left that
  sequence, and the scan returns on every form whose repeating groups have such rows and
  for whose invalid, interacted leaf fields the formatter returns a message.
\<close>

theorem repeating_group_rows:
  assumes "map_of controls name = Some (FormArray p rows)"
  shows "(list_all row_ok rows \<longrightarrow>
            findErrors_step controls name acc
              = Returned (acc(name \<mapsto> Rows (map row_messages rows)))
            \<and> list_all row_scanned rows)
    \<and> length (map row_messages rows) = length rows
    \<and> (findErrors controls acc = Returned acc' \<longrightarrow>
            acc' name = Some (Rows (map row_messages rows)) \<and> list_all row_scanned rows)
    \<and> (scannable controls \<longrightarrow> (\<exists>acc'. findErrors controls acc = Returned acc'))"
proof (intro conjI impI)
  assume ok: "list_all row_ok rows"
  from rows_fold_ok [OF ok, of "[]"] have r: "rows_fold rows [] = Returned (map row_messages rows)"
    by simp
  with assms have "write_of controls name = Some (Rows (map row_messages rows))"
    "\<not> throws controls name"
    by (simp_all add: write_of_def throws_def)
  then show "findErrors_step controls name acc
      = Returned (acc(name \<mapsto> Rows (map row_messages rows)))"
    by (simp add: findErrors_step_eq write_to_def)
  from rows_fold_Returned [OF r] show "list_all row_scanned rows" by simp
next
  show "length (map row_messages rows) = length rows" by simp
next
  assume r: "findErrors controls acc = Returned acc'"
  from assms have mem: "name \<in> set (map fst controls)"
    by (metis map_of_eq_None_iff option.distinct(1) set_map)
  from findErrors_Returned [OF r] mem have
    a: "acc' = apply_writes controls (map fst controls) acc" and nt: "\<not> throws controls name"
    by auto
  from nt assms obtain rs' where rs': "rows_fold rows [] = Returned rs'"
    by (cases "rows_fold rows []") (auto simp: throws_def)
  from rows_fold_Returned [OF rs'] have
    e: "rs' = map row_messages rows" and s: "list_all row_scanned rows" by auto
  from rs' e assms have "write_of controls name = Some (Rows (map row_messages rows))"
    by (simp add: write_of_def)
  with a mem show "acc' name = Some (Rows (map row_messages rows))"
    by (simp add: apply_writes_apply)
  from s show "list_all row_scanned rows" .
next
  assume "scannable controls"
  then show "\<exists>acc'. findErrors controls acc = Returned acc'"
    by (simp add: scannable_findErrors)
qed

text \<open>
  A repeating group \<open>items\<close> of three rows: the first row has an invalid, dirty \<open>qty\<close>,
  the second nothing invalid, the third an invalid, touched \<open>sku\<close>.
\<close>

theorem repeating_group_rows_witness:
  "findErrors_step ex_order_controls ''items'' Map.empty
     = Returned [''items'' \<mapsto> Rows (map row_messages ex_rows)]
   \<and> (\<exists>acc'. findErrors ex_order_controls Map.empty = Returned acc'
      \<and> acc' ''items'' = Some (Rows (map row_messages ex_rows)))
   \<and> length (map row_messages ex_rows) = 3
   \<and> map (\<lambda>row. map (row_messages row) [''qty'', ''sku'']) ex_rows
          = [[Some (JStr (''Vlera minimale '' @ e_diaeresis @ ''sht'' @ e_diaeresis
                            @ '' 5, vlera aktuale 2'')), None],
             [None, None],
             [None, Some (JStr msg_required)]]"
proof -
  have h: "scannable ex_order_controls"
    "map_of ex_order_controls ''items'' = Some (FormArray ex_invalid_touched ex_rows)"
    "list_all row_ok ex_rows"
    by code_simp+
  have l: "length ex_rows = 3" by code_simp
  have v: "map (\<lambda>row. map (row_messages row) [''qty'', ''sku'']) ex_rows
          = [[Some (JStr (''Vlera minimale '' @ e_diaeresis @ ''sht'' @ e_diaeresis
                            @ '' 5, vlera aktuale 2'')), None],
             [None, None],
             [None, Some (JStr msg_required)]]"
    by code_simp
  from repeating_group_rows [OF h(2), of Map.empty] h(1) obtain a where
    a: "findErrors ex_order_controls Map.empty = Returned a"
    by blast
  from repeating_group_rows [OF h(2), of Map.empty a] a
  have s: "a ''items'' = Some (Rows (map row_messages ex_rows))" by simp
  from repeating_group_rows [OF h(2), of Map.empty] h(3)
  have c: "findErrors_step ex_order_controls ''items'' Map.empty
     = Returned [''items'' \<mapsto> Rows (map row_messages ex_rows)]" by blast
  from a s c l v show ?thesis by simp
qed

text \<open>
  Claim C5 as stated speaks of every repeating group. The source takes the rows for
  groups (\<open>formArray.controls as FormGroup[]\<close>): where the rows are leaf controls,
  \<open>Object.keys(formGroup.controls)\<close> throws after the first push. Where a row holds a
  group that is invalid and touched and has no errors of its own, \<open>setErrorMessage(null)\<close>
  throws in the first row. Either way the scan ends with one mapping for two rows.
\<close>

theorem repeating_group_rows_counterexample:
  "threw (findErrors ex_tags_controls Map.empty)
   \<and> state_of (findErrors ex_tags_controls Map.empty) ''tags'' = Some (Rows [Map.empty])
   \<and> threw (findErrors ex_subgroup_controls Map.empty)
   \<and> state_of (findErrors ex_subgroup_controls Map.empty) ''items'' = Some (Rows [Map.empty])"
  by (simp add: findErrors_def findErrors_step_eq throws_def write_of_def write_to_def
      ex_tags_controls_def ex_subgroup_controls_def hasError_def invalid_def
      ex_invalid_touched_def ex_required_touched_def ex_valid_def setErrorMessage_def)

text \<open>
  Claim C6, as amended. For a leaf control among the children of the root form, the
  scanner's pass over the control writes the control's message under its name if the
  control is invalid and dirty or touched and the formatter returns a message for its
  failure kinds, and writes nothing if the control is valid or not interacted with; a
  scan that returns has written the message in the first case and has left the
  accumulator under that name as it was in the second. A control that is valid or not
  interacted with, or has no failure kinds, keeps its entry whether or not the scan runs
  to its end.
\<close>

theorem field_entry_iff_hasError:
  assumes "map_of controls name = Some (FormControl p)"
  shows "(findErrors controls acc = Returned acc' \<longrightarrow>
            (if hasError (FormControl p)
             then (\<exists>m. setErrorMessage (errors p) = Inr m \<and> acc' name = Some (Msg m))
             else acc' name = acc name))
    \<and> (scannable controls \<longrightarrow> (\<exists>acc'. findErrors controls acc = Returned acc'))
    \<and> (\<not> hasError (FormControl p) \<or> errors p = JNull
          \<longrightarrow> state_of (findErrors controls acc) name = acc name)
    \<and> (hasError (FormControl p) \<and> setErrorMessage (errors p) = Inr m
          \<longrightarrow> findErrors_step controls name acc = Returned (acc(name \<mapsto> Msg m)))
    \<and> (\<not> hasError (FormControl p) \<longrightarrow> findErrors_step controls name acc = Returned acc)"
proof (intro conjI impI)
  assume r: "findErrors controls acc = Returned acc'"
  from assms have mem: "name \<in> set (map fst controls)"
    by (metis map_of_eq_None_iff option.distinct(1) set_map)
  from findErrors_Returned [OF r] mem have
    a: "acc' = apply_writes controls (map fst controls) acc" and nt: "\<not> throws controls name"
    by auto
  show "if hasError (FormControl p)
        then (\<exists>m. setErrorMessage (errors p) = Inr m \<and> acc' name = Some (Msg m))
        else acc' name = acc name"
  proof (cases "hasError (FormControl p)")
    case True
    with nt assms obtain m where m: "setErrorMessage (errors p) = Inr m"
      by (cases "setErrorMessage (errors p)") (auto simp: throws_def)
    with True assms have "write_of controls name = Some (Msg m)"
      by (simp add: write_of_def)
    with a mem m True show ?thesis by (simp add: apply_writes_apply)
  next
    case False
    with assms have "write_of controls name = None" by (simp add: write_of_def)
    with a mem False show ?thesis by (simp add: apply_writes_apply)
  qed
next
  assume "scannable controls"
  then show "\<exists>acc'. findErrors controls acc = Returned acc'"
    by (simp add: scannable_findErrors)
next
  assume "\<not> hasError (FormControl p) \<or> errors p = JNull"
  with assms have "write_of controls name = None"
    by (auto simp: write_of_def setErrorMessage_def)
  then show "state_of (findErrors controls acc) name = acc name"
    unfolding findErrors_def by (rule forEach_frame)
next
  assume "hasError (FormControl p) \<and> setErrorMessage (errors p) = Inr m"
  with assms show "findErrors_step controls name acc = Returned (acc(name \<mapsto> Msg m))"
    by (simp add: findErrors_step_def findErrorsOnFormControls_def setErrorToErrorObject_def)
next
  assume "\<not> hasError (FormControl p)"
  with assms show "findErrors_step controls name acc = Returned acc"
    by (simp add: findErrors_step_def findErrorsOnFormControls_def)
qed

text \<open>
  The field \<open>email\<close> is invalid and touched, the field \<open>name\<close> invalid but neither dirty
  nor touched: an entry appears for \<open>email\<close>, none for \<open>name\<close>, and an older entry of
  \<open>name\<close> stays.
\<close>

theorem field_entry_iff_hasError_witness:
  "(\<exists>acc'. findErrors ex_order_controls Map.empty = Returned acc'
      \<and> acc' ''email'' = Some (Msg (JStr msg_required)))
   \<and> (\<exists>acc'. findErrors ex_order_controls [''name'' \<mapsto> Msg (JStr ''old'')] = Returned acc'
      \<and> acc' ''name'' = Some (Msg (JStr ''old'')))
   \<and> state_of (findErrors ex_order_controls Map.empty) ''name'' = None
   \<and> findErrors_step ex_order_controls ''email'' Map.empty
        = Returned [''email'' \<mapsto> Msg (JStr msg_required)]
   \<and> findErrors_step ex_order_controls ''name'' Map.empty = Returned Map.empty"
proof -
  have h: "scannable ex_order_controls"
    "map_of ex_order_controls ''email'' = Some (FormControl ex_required_touched)"
    "map_of ex_order_controls ''name'' = Some (FormControl ex_required_untouched)"
    by code_simp+
  have e: "hasError (FormControl ex_required_touched)"
    "\<not> hasError (FormControl ex_required_untouched)"
    "setErrorMessage (errors ex_required_touched) = Inr (JStr msg_required)"
    by code_simp+
  from field_entry_iff_hasError [OF h(2), of Map.empty] h(1) e obtain a1 where
    a1: "findErrors ex_order_controls Map.empty = Returned a1"
    by blast
  from field_entry_iff_hasError [OF h(2), of Map.empty a1] a1 e
  have c1: "a1 ''email'' = Some (Msg (JStr msg_required))" by simp
  from field_entry_iff_hasError [OF h(3), of "[''name'' \<mapsto> Msg (JStr ''old'')]"] h(1) obtain a2 where
    a2: "findErrors ex_order_controls [''name'' \<mapsto> Msg (JStr ''old'')] = Returned a2"
    by blast
  from field_entry_iff_hasError [OF h(3), of "[''name'' \<mapsto> Msg (JStr ''old'')]" a2] a2 e
  have c2: "a2 ''name'' = Some (Msg (JStr ''old''))" by simp
  from field_entry_iff_hasError [OF h(3), of Map.empty] e
  have c3: "state_of (findErrors ex_order_controls Map.empty) ''name'' = None" by simp
  from field_entry_iff_hasError [OF h(2), of Map.empty _ "JStr msg_required"] e
  have c4: "findErrors_step ex_order_controls ''email'' Map.empty
        = Returned [''email'' \<mapsto> Msg (JStr msg_required)]" by blast
  from field_entry_iff_hasError [OF h(3), of Map.empty] e
  have c5: "findErrors_step ex_order_controls ''name'' Map.empty = Returned Map.empty" by blast
  from a1 c1 a2 c2 c3 c4 c5 show ?thesis by simp
qed

text \<open>
  Claim C6 as stated has an entry written for every leaf control that is invalid and
  interacted with. An exception in the pass over an earlier child ends the scan: here the
  repeating group \<open>items\<close> throws, and the invalid, touched field \<open>email\<close> after it gets no
  entry.
\<close>

theorem field_entry_counterexample:
  "map_of ex_subgroup_controls ''email'' = Some (FormControl ex_required_touched)
   \<and> hasError (FormControl ex_required_touched)
   \<and> threw (findErrors ex_subgroup_controls Map.empty)
   \<and> state_of (findErrors ex_subgroup_controls Map.empty) ''email'' = None"
  by (simp add: findErrors_def findErrors_step_eq throws_def write_of_def write_to_def
      ex_subgroup_controls_def hasError_def invalid_def
      ex_invalid_touched_def ex_required_touched_def ex_valid_def setErrorMessage_def)

text \<open>
  Claim C8. A second scan of the same form, started from the accumulator the first scan
  left, ends as the first did and leaves the accumulator exactly as the first left it: it
  returns if the first returned, and the repeated writes raise nothing. So does a second
  run of the subscriber.
\<close>

theorem scan_idempotent:
  "findErrors controls (state_of (findErrors controls acc)) = findErrors controls acc
   \<and> (findErrors controls acc = Returned acc1 \<longrightarrow> findErrors controls acc1 = Returned acc1)
   \<and> (onValueChange root acc = Returned acc1 \<longrightarrow> onValueChange root acc1 = Returned acc1)
   \<and> (scannable controls \<longrightarrow>
        (\<exists>acc2. findErrors controls acc = Returned acc2 \<and> findErrors controls acc2 = Returned acc2))"
proof -
  have idem: "findErrors cs a = Returned a1 \<Longrightarrow> findErrors cs a1 = Returned a1" for cs a a1
    using findErrors_again [of cs a] by simp
  have sub: "onValueChange root acc = Returned acc1 \<Longrightarrow> onValueChange root acc1 = Returned acc1"
    by (auto simp: onValueChange_def split: if_splits option.splits dest: idem)
  have "scannable controls \<Longrightarrow>
        \<exists>acc2. findErrors controls acc = Returned acc2 \<and> findErrors controls acc2 = Returned acc2"
    using scannable_findErrors [of controls acc] idem by auto
  with idem sub findErrors_again [of controls acc] show ?thesis by blast
qed

theorem scan_idempotent_witness:
  "(\<exists>acc2. findErrors ex_order_controls Map.empty = Returned acc2
      \<and> findErrors ex_order_controls acc2 = Returned acc2)
   \<and> findErrors ex_order_controls (state_of (findErrors ex_order_controls Map.empty))
       = findErrors ex_order_controls Map.empty
   \<and> (\<exists>acc2. onValueChange (FormGroup ex_invalid_touched ex_order_controls) Map.empty = Returned acc2
      \<and> onValueChange (FormGroup ex_invalid_touched ex_order_controls) acc2 = Returned acc2)"
proof -
  have h: "scannable ex_order_controls" by code_simp
  from scan_idempotent [of ex_order_controls Map.empty] h obtain a where
    a: "findErrors ex_order_controls Map.empty = Returned a"
       "findErrors ex_order_controls a = Returned a"
    by blast
  have o: "onValueChange (FormGroup ex_invalid_touched ex_order_controls) acc
      = findErrors ex_order_controls acc" for acc
    by (simp add: onValueChange_def invalid_def ex_invalid_touched_def)
  from a o have o1: "onValueChange (FormGroup ex_invalid_touched ex_order_controls) Map.empty = Returned a"
    by simp
  from scan_idempotent [of ex_order_controls Map.empty a
      "FormGroup ex_invalid_touched ex_order_controls"] o1
  have o2: "onValueChange (FormGroup ex_invalid_touched ex_order_controls) a = Returned a"
    by blast
  from scan_idempotent [of ex_order_controls Map.empty]
  have r: "findErrors ex_order_controls (state_of (findErrors ex_order_controls Map.empty))
       = findErrors ex_order_controls Map.empty" by blast
  from a o1 o2 r show ?thesis by blast
qed

text \<open>
  Claim C9. For a group among the children of the root form that is no repeating group,
  the scan passes over it: nothing is written under its name, and the outcome of the scan
  does not depend on the group's own state or on the controls inside it.
\<close>

theorem plain_group_not_descended:
  assumes "map_of controls name = Some (FormGroup p kids)"
  shows "findErrors_step controls name acc = Returned acc
    \<and> state_of (findErrors controls acc) name = acc name
    \<and> findErrors (AList.update name (FormGroup p' kids') controls) acc = findErrors controls acc"
proof (intro conjI)
  from assms show "findErrors_step controls name acc = Returned acc"
    by (simp add: findErrors_step_def)
  from assms have "write_of controls name = None" by (simp add: write_of_def)
  then show "state_of (findErrors controls acc) name = acc name"
    unfolding findErrors_def by (rule forEach_frame)
  from assms have mem: "name \<in> set (map fst controls)"
    by (metis map_of_eq_None_iff option.distinct(1) set_map)
  then have keys: "map fst (AList.update name (FormGroup p' kids') controls) = map fst controls"
    by (simp add: AList.update_keys)
  have "findErrors_step (AList.update name (FormGroup p' kids') controls) k a
      = findErrors_step controls k a" for k a
    using assms
    by (auto simp: findErrors_step_def findErrorsOnFormControls_def AList.update_conv'
        split: option.splits control.splits)
  then have "findErrors_step (AList.update name (FormGroup p' kids') controls)
      = findErrors_step controls" by (intro ext)
  with keys show "findErrors (AList.update name (FormGroup p' kids') controls) acc
      = findErrors controls acc"
    by (simp add: findErrors_def)
qed

theorem plain_group_not_descended_witness:
  "state_of (findErrors ex_order_controls Map.empty) ''address'' = None
   \<and> findErrors (AList.update ''address'' (FormGroup ex_valid []) ex_order_controls) Map.empty
       = findErrors ex_order_controls Map.empty"
proof -
  have h: "map_of ex_order_controls ''address''
      = Some (FormGroup ex_invalid_touched [(''city'', FormControl ex_required_touched)])"
    by code_simp
  from plain_group_not_descended [OF h, of Map.empty ex_valid "[]"] show ?thesis by simp
qed

end
